theory Spec2Isabelle
  imports Main "HOL-Library.Word"
begin

section \<open>JavaScript strings\<close>

text \<open>
  A JavaScript string is a sequence of UTF-16 code units; \<open>length\<close>, \<open>slice\<close> and
  \<open>trim\<close> count and inspect code units. \<open>ascii\<close> embeds the ASCII literals of the source.
\<close>

type_synonym jstring = "16 word list"

definition ascii :: "string \<Rightarrow> jstring" where
  "ascii s = map (\<lambda>c. of_nat (of_char c)) s"

text \<open>
  \<open>String.prototype.trim\<close> strips WhiteSpace and LineTerminator code points from both
  ends: TAB, LF, VT, FF, CR, SP, NBSP, U+1680, U+2000 to U+200A, LS, PS, U+202F, U+205F,
  U+3000 and the byte order mark.
\<close>

definition isWhiteSpace :: "16 word \<Rightarrow> bool" where
  "isWhiteSpace c \<longleftrightarrow>
     c \<in> {0x9, 0xA, 0xB, 0xC, 0xD, 0x20, 0xA0, 0x1680, 0x2028, 0x2029, 0x202F, 0x205F,
          0x3000, 0xFEFF}
     \<or> (0x2000 \<le> c \<and> c \<le> 0x200A)"

definition trim :: "jstring \<Rightarrow> jstring" where
  "trim s = rev (dropWhile isWhiteSpace (rev (dropWhile isWhiteSpace s)))"

text \<open>Truthiness of \<open>string | undefined | null\<close>: absent and the empty string are falsy.\<close>

definition truthy :: "jstring option \<Rightarrow> bool" where
  "truthy v = (case v of None \<Rightarrow> False | Some s \<Rightarrow> s \<noteq> [])"

text \<open>\<open>a || b\<close> on an optional string and a string.\<close>

definition orElse :: "jstring option \<Rightarrow> jstring \<Rightarrow> jstring" where
  "orElse v d = (case v of None \<Rightarrow> d | Some s \<Rightarrow> if s = [] then d else s)"

text \<open>\<open>x?.trim()\<close>\<close>

definition optTrim :: "jstring option \<Rightarrow> jstring option" where
  "optTrim v = (case v of None \<Rightarrow> None | Some s \<Rightarrow> Some (trim s))"

text \<open>Decimal digits of a non-negative integer, as \<open>Number.prototype.toString\<close> prints it.\<close>

function dec :: "nat \<Rightarrow> jstring" where
  "dec n = (if n < 10 then [of_nat (48 + n)] else dec (n div 10) @ [of_nat (48 + n mod 10)])"
  by pat_completeness auto
termination
  by (relation "measure id") auto

declare dec.simps [simp del]

primrec startsWith :: "jstring \<Rightarrow> jstring \<Rightarrow> bool" where
  "startsWith s [] = True"
| "startsWith s (p # ps) = (case s of [] \<Rightarrow> False | c # cs \<Rightarrow> c = p \<and> startsWith cs ps)"

primrec includes_str :: "jstring \<Rightarrow> jstring \<Rightarrow> bool" where
  "includes_str [] p = (p = [])"
| "includes_str (c # cs) p = (startsWith (c # cs) p \<or> includes_str cs p)"

text \<open>
  The replacement argument of \<open>replaceAll\<close> is a template even when the pattern is a string:
  \<open>$$\<close> yields \<open>$\<close>, \<open>$&\<close> the matched text, \<open>$`\<close> the text before the match and \<open>$'\<close>
  the text after it; with no capture groups every other \<open>$\<close> stays as it is.
\<close>

fun getSubstitution :: "jstring \<Rightarrow> jstring \<Rightarrow> jstring \<Rightarrow> jstring \<Rightarrow> jstring" where
  "getSubstitution matched before after [] = []"
| "getSubstitution matched before after [c] = [c]"
| "getSubstitution matched before after (c # d # r) =
     (if c = 0x24 \<and> d = 0x24 then 0x24 # getSubstitution matched before after r
      else if c = 0x24 \<and> d = 0x26 then matched @ getSubstitution matched before after r
      else if c = 0x24 \<and> d = 0x60 then before @ getSubstitution matched before after r
      else if c = 0x24 \<and> d = 0x27 then after @ getSubstitution matched before after r
      else c # getSubstitution matched before after (d # r))"

text \<open>
  \<open>str.replaceAll(pat, repl)\<close> for a non-empty string pattern: matches are found left to
  right without overlap. \<open>skip\<close> counts the code units of the current match still to drop,
  \<open>before\<close> is the text already passed.
\<close>

fun replaceAllFrom :: "nat \<Rightarrow> jstring \<Rightarrow> jstring \<Rightarrow> jstring \<Rightarrow> jstring \<Rightarrow> jstring" where
  "replaceAllFrom skip before pat repl [] = []"
| "replaceAllFrom skip before pat repl (c # cs) =
     (if 0 < skip then replaceAllFrom (skip - 1) (before @ [c]) pat repl cs
      else if startsWith (c # cs) pat
      then getSubstitution pat before (drop (length pat) (c # cs)) repl
           @ replaceAllFrom (length pat - 1) (before @ [c]) pat repl cs
      else c # replaceAllFrom 0 (before @ [c]) pat repl cs)"

definition replaceAll :: "jstring \<Rightarrow> jstring \<Rightarrow> jstring \<Rightarrow> jstring" where
  "replaceAll str pat repl = replaceAllFrom 0 [] pat repl str"

section \<open>Data model (\<open>lib/types\<close>)\<close>

datatype conversation_role = User | Assistant

definition roleName :: "conversation_role \<Rightarrow> jstring" where
  "roleName r = (case r of User \<Rightarrow> ascii ''user'' | Assistant \<Rightarrow> ascii ''assistant'')"

record conversation_message =
  msgId :: jstring
  msgRole :: conversation_role
  msgText :: jstring
  createdAt :: nat

datatype ui_status = Idle | Connecting | Listening | Thinking | Speaking | ErrorStatus

text \<open>The \<open>Action.Submit\<close> payload is an opaque key-value object; any object is truthy.\<close>

type_synonym payload = "(jstring \<times> jstring) list"

record signin_card =
  title :: jstring
  cardMessage :: jstring
  tokenExchangeResourceUri :: "jstring option"
  tokenExchangeResourceId :: "jstring option"
  connectionName :: "jstring option"
  submitAction :: "payload option"

record copilot_response =
  botReply :: jstring
  speechText :: "jstring option"
  respSigninCard :: "signin_card option"

text \<open>A thrown value: an \<open>Error\<close> with its message (the source casts every caught value so).\<close>

datatype js_error = Error (errMessage: jstring)

record exchange_params =
  paramConnectionToken :: jstring
  paramConnectionName :: jstring
  paramTokenExchangeResourceId :: jstring

section \<open>External collaborators\<close>

text \<open>
  The two places that synthesize and play speech. The collaborators are external and may
  answer differently each time; one operation calls each of them at most once per call
  site, so their answers during one operation are given per call site.
\<close>

datatype call_site = Filler | Reply

text \<open>
  The HTTP response of \<open>/api/tts/synthesize\<close>: \<open>ok\<close>, the result of \<open>text()\<close> and the
  \<open>audio\<close> field of the result of \<open>json()\<close>.
\<close>

record tts_response =
  ok :: bool
  bodyText :: "js_error + jstring"
  bodyJsonAudio :: "js_error + jstring option"

text \<open>
  When the filler branch resumes after its speech synthesis request: while the backend
  reply is awaited, while the interrupt is awaited, or later (while the filler itself is
  awaited, or after the turn has failed).
\<close>

datatype filler_resume = DuringBackendWait | DuringInterruptWait | Afterwards

text \<open>
  What the collaborators answer during one operation. Every promise settles: \<open>Inl\<close> is a
  rejection, \<open>Inr\<close> the resolved value. An optional adapter that is not supplied is
  \<open>None\<close>. \<open>fillerTemplateVar\<close> is \<open>process.env.NEXT_PUBLIC_FILLER_TEXT_TEMPLATE\<close>;
  \<open>dateNow r k\<close> is the \<open>k\<close>-th reading of the clock while the message of role \<open>r\<close> is
  built and \<open>mathRandom36 r\<close> is \<open>Math.random().toString(36).slice(2, 8)\<close> there.
\<close>

record env =
  fillerTemplateVar :: "jstring option"
  fetchTts :: "call_site \<Rightarrow> jstring \<Rightarrow> js_error + tts_response"
  speakAudio :: "call_site \<Rightarrow> jstring \<Rightarrow> js_error + unit"
  sendCopilotMessage :: "jstring \<Rightarrow> js_error + copilot_response"
  interruptSpeech :: "(js_error + unit) option"
  acquireConnectionToken :: "(jstring \<Rightarrow> js_error + jstring option) option"
  exchangeConnectionToken :: "(exchange_params \<Rightarrow> js_error + copilot_response) option"
  submitCardAction :: "(payload \<Rightarrow> js_error + copilot_response) option"
  dateNow :: "conversation_role \<Rightarrow> nat \<Rightarrow> nat"
  mathRandom36 :: "conversation_role \<Rightarrow> jstring"
  fillerResume :: filler_resume

section \<open>State of the hook\<close>

text \<open>
  Every state write and every adapter request of an operation, in the order they are
  issued. \<open>FillerSettled\<close> marks the point where \<open>await fillerPromise.catch(...)\<close> returns.
\<close>

datatype event =
    SetHistoryAppend conversation_message
  | SetHistoryEmpty
  | SetStatus ui_status
  | SetIsProcessing bool
  | SetError "jstring option"
  | SetSigninCard "signin_card option"
  | SetIsExchanging bool
  | CallFetchTts call_site jstring
  | CallSpeakAudio call_site jstring
  | CallSendCopilotMessage jstring
  | CallInterruptSpeech
  | CallAcquireConnectionToken jstring
  | CallExchangeConnectionToken exchange_params
  | CallSubmitCardAction payload
  | FillerSettled

text \<open>The six \<open>useState\<close> cells, and the log of what has been done so far.\<close>

record world =
  history :: "conversation_message list"
  status :: ui_status
  isProcessing :: bool
  error :: "jstring option"
  signinCard :: "signin_card option"
  isExchanging :: bool
  trace :: "event list"

text \<open>
  The operations of the hook are memoised callbacks (\<open>useCallback\<close>). Two of the cells are
  read by them as plain variables of the render that created the callback, not through a
  ref or a functional updater: \<open>isProcessing\<close> by \<open>runTurn\<close> (line 156, dependency list at
  line 233) and \<open>signinCard\<close> by \<open>completeTokenExchange\<close> and \<open>submitAllowAction\<close> (lines
  243 and 292, dependency lists at lines 283 and 325). A callback therefore carries the
  values these two cells had when it was created.
\<close>

record closure =
  capturedIsProcessing :: bool
  capturedSigninCard :: "signin_card option"

text \<open>The callbacks created by the render that shows the state \<open>w\<close>.\<close>

definition closureOf :: "world \<Rightarrow> closure" where
  "closureOf w =
     \<lparr>capturedIsProcessing = isProcessing w, capturedSigninCard = signinCard w\<rparr>"

text \<open>How the promise returned by an async operation settles.\<close>

datatype outcome = Resolved | Rejected js_error

text \<open>
  What the caller of an operation gets from the call itself. The operations are declared
  \<open>async\<close> (lines 154, 242 and 291): the call returns a promise whatever the body does, and
  a \<open>throw\<close> in the body, also one before its first \<open>await\<close>, rejects that promise.
\<close>

datatype delivery = ThrownToCaller js_error | PromiseReturned outcome

definition asyncCall :: "outcome \<times> world \<Rightarrow> delivery \<times> world" where
  "asyncCall rw = (PromiseReturned (fst rw), snd rw)"

definition emit :: "event \<Rightarrow> world \<Rightarrow> world" where
  "emit e w = w\<lparr>trace := trace w @ [e]\<rparr>"

definition emits :: "event list \<Rightarrow> world \<Rightarrow> world" where
  "emits es w = w\<lparr>trace := trace w @ es\<rparr>"

definition setHistoryAppend :: "conversation_message \<Rightarrow> world \<Rightarrow> world" where
  "setHistoryAppend m w = emit (SetHistoryAppend m) (w\<lparr>history := history w @ [m]\<rparr>)"

definition setHistoryEmpty :: "world \<Rightarrow> world" where
  "setHistoryEmpty w = emit SetHistoryEmpty (w\<lparr>history := []\<rparr>)"

definition setStatus :: "ui_status \<Rightarrow> world \<Rightarrow> world" where
  "setStatus v w = emit (SetStatus v) (w\<lparr>status := v\<rparr>)"

definition setIsProcessing :: "bool \<Rightarrow> world \<Rightarrow> world" where
  "setIsProcessing v w = emit (SetIsProcessing v) (w\<lparr>isProcessing := v\<rparr>)"

definition setError :: "jstring option \<Rightarrow> world \<Rightarrow> world" where
  "setError v w = emit (SetError v) (w\<lparr>error := v\<rparr>)"

definition setSigninCard :: "signin_card option \<Rightarrow> world \<Rightarrow> world" where
  "setSigninCard v w = emit (SetSigninCard v) (w\<lparr>signinCard := v\<rparr>)"

definition setIsExchanging :: "bool \<Rightarrow> world \<Rightarrow> world" where
  "setIsExchanging v w = emit (SetIsExchanging v) (w\<lparr>isExchanging := v\<rparr>)"

section \<open>The hook \<open>useConversationLoop\<close>\<close>

definition message :: "env \<Rightarrow> conversation_role \<Rightarrow> jstring \<Rightarrow> conversation_message" where
  "message env r t =
     \<lparr>msgId = roleName r @ ascii ''-'' @ dec (dateNow env r 0) @ ascii ''-'' @ mathRandom36 env r,
      msgRole = r,
      msgText = t,
      createdAt = dateNow env r 1\<rparr>"

text \<open>What the promise of \<open>synthesizeSpeech(text)\<close> settles to.\<close>

definition ttsResult :: "env \<Rightarrow> call_site \<Rightarrow> jstring \<Rightarrow> js_error + jstring" where
  "ttsResult env site t =
     (case fetchTts env site t of
        Inl e \<Rightarrow> Inl e
      | Inr response \<Rightarrow>
          if \<not> ok response
          then (case bodyText response of Inl e \<Rightarrow> Inl e | Inr body \<Rightarrow> Inl (Error body))
          else (case bodyJsonAudio response of
                  Inl e \<Rightarrow> Inl e
                | Inr None \<Rightarrow> Inl (Error (ascii ''TTS route did not return audio''))
                | Inr (Some audio) \<Rightarrow>
                    if audio = [] then Inl (Error (ascii ''TTS route did not return audio''))
                    else Inr audio))"

definition synthesizeSpeech ::
  "env \<Rightarrow> call_site \<Rightarrow> jstring \<Rightarrow> world \<Rightarrow> (js_error + jstring) \<times> world" where
  "synthesizeSpeech env site t w = (ttsResult env site t, emit (CallFetchTts site t) w)"

definition processBotReply ::
  "env \<Rightarrow> jstring \<Rightarrow> jstring option \<Rightarrow> world \<Rightarrow> (js_error + unit) \<times> world" where
  "processBotReply env displayText speechTextArg w =
     (let w1 = setHistoryAppend (message env Assistant displayText) w;
          w2 = setStatus Speaking w1
      in case synthesizeSpeech env Reply (orElse speechTextArg displayText) w2 of
           (Inl e, w3) \<Rightarrow> (Inl e, w3)
         | (Inr audio, w3) \<Rightarrow>
             (let w4 = emit (CallSpeakAudio Reply audio) w3
              in case speakAudio env Reply audio of
                   Inl e \<Rightarrow> (Inl e, w4)
                 | Inr _ \<Rightarrow> (Inr (), setStatus Listening w4)))"

subsection \<open>The filler branch\<close>

definition FILLER_TEXT_TEMPLATE :: "env \<Rightarrow> jstring" where
  "FILLER_TEXT_TEMPLATE env = orElse (optTrim (fillerTemplateVar env)) []"

definition fillerText :: "env \<Rightarrow> jstring \<Rightarrow> jstring" where
  "fillerText env userText =
     (let truncated =
            (if 80 < length userText then take 80 userText @ ascii ''...'' else userText)
      in if includes_str (FILLER_TEXT_TEMPLATE env) (ascii ''{{input}}'')
         then replaceAll (FILLER_TEXT_TEMPLATE env) (ascii ''{{input}}'') truncated
         else FILLER_TEXT_TEMPLATE env)"

text \<open>
  \<open>speakFiller\<close> runs up to its first \<open>await\<close> when it is called: with a template
  configured, the speech synthesis request goes out at once.
\<close>

definition speakFillerStart :: "env \<Rightarrow> jstring \<Rightarrow> event list" where
  "speakFillerStart env userText =
     (if FILLER_TEXT_TEMPLATE env = [] then []
      else [CallFetchTts Filler (fillerText env userText)])"

text \<open>What it does when it resumes: the playback request, if the synthesis succeeded.\<close>

definition speakFillerRest :: "env \<Rightarrow> jstring \<Rightarrow> event list" where
  "speakFillerRest env userText =
     (if FILLER_TEXT_TEMPLATE env = [] then []
      else case ttsResult env Filler (fillerText env userText) of
             Inl e \<Rightarrow> []
           | Inr audio \<Rightarrow> [CallSpeakAudio Filler audio])"

text \<open>What its promise settles to: the \<open>catch\<close> block swallows both failures.\<close>

definition speakFiller :: "env \<Rightarrow> jstring \<Rightarrow> js_error + unit" where
  "speakFiller env userText =
     (if FILLER_TEXT_TEMPLATE env = [] then Inr ()
      else case ttsResult env Filler (fillerText env userText) of
             Inl e \<Rightarrow> Inr ()
           | Inr audio \<Rightarrow>
               (case speakAudio env Filler audio of Inl e \<Rightarrow> Inr () | Inr u \<Rightarrow> Inr ()))"

text \<open>\<open>promise.catch(() => {})\<close>\<close>

definition catchIgnore :: "js_error + unit \<Rightarrow> js_error + unit" where
  "catchIgnore r = (case r of Inl e \<Rightarrow> Inr () | Inr u \<Rightarrow> Inr u)"

text \<open>
  The filler branch resumes at the suspension point \<open>p\<close> of the main branch if the
  schedule says so; its requests not yet issued stay pending.
\<close>

definition resumeFillerAt ::
  "filler_resume \<Rightarrow> env \<Rightarrow> event list \<Rightarrow> world \<Rightarrow> world \<times> event list" where
  "resumeFillerAt p env pending w =
     (if fillerResume env = p then (emits pending w, []) else (w, pending))"

subsection \<open>Silent token exchange\<close>

definition trySilentExchange ::
  "env \<Rightarrow> signin_card \<Rightarrow> world \<Rightarrow> (js_error + copilot_response option) \<times> world" where
  "trySilentExchange env theCard w =
     (case (tokenExchangeResourceUri theCard, tokenExchangeResourceId theCard,
            connectionName theCard,
            acquireConnectionToken env, exchangeConnectionToken env) of
        (Some uri, Some rid, Some cname, Some acquire, Some exchange) \<Rightarrow>
          if uri = [] \<or> rid = [] \<or> cname = [] then (Inr None, w)
          else
            (let w1 = emit (CallAcquireConnectionToken uri) w
             in case acquire uri of
                  Inl e \<Rightarrow> (Inl e, w1)
                | Inr None \<Rightarrow> (Inr None, w1)
                | Inr (Some connectionToken) \<Rightarrow>
                    if connectionToken = [] then (Inr None, w1)
                    else
                      (let params = \<lparr>paramConnectionToken = connectionToken,
                                      paramConnectionName = cname,
                                      paramTokenExchangeResourceId = rid\<rparr>;
                           w2 = emit (CallExchangeConnectionToken params) w1
                       in case exchange params of
                            Inl e \<Rightarrow> (Inl e, w2)
                          | Inr r \<Rightarrow> (Inr (Some r), w2)))
      | _ \<Rightarrow> (Inr None, w))"

subsection \<open>\<open>runTurn\<close>\<close>

text \<open>Lines 209 to 224: show the card, then speak the reply or display the card's message.\<close>

definition showReply ::
  "env \<Rightarrow> copilot_response \<Rightarrow> world \<Rightarrow> (js_error + unit) \<times> world" where
  "showReply env response w =
     (let botReplyText = trim (botReply response);
          nextSigninCard = respSigninCard response;
          w1 = (case nextSigninCard of None \<Rightarrow> w | Some c \<Rightarrow> setSigninCard (Some c) w)
      in if botReplyText \<noteq> []
         then processBotReply env botReplyText (optTrim (speechText response)) w1
         else
           (let w2 = (case nextSigninCard of
                        None \<Rightarrow> w1
                      | Some c \<Rightarrow>
                          if trim (cardMessage c) \<noteq> []
                          then setHistoryAppend (message env Assistant (trim (cardMessage c))) w1
                          else w1)
            in (Inr (), setStatus Listening w2)))"

text \<open>Lines 183 to 224: what the turn does once the filler branch has settled.\<close>

definition afterFiller ::
  "env \<Rightarrow> copilot_response \<Rightarrow> world \<Rightarrow> (js_error + unit) \<times> world" where
  "afterFiller env response w =
     (let w1 = setStatus Thinking w
      in case respSigninCard response of
           None \<Rightarrow> showReply env response w1
         | Some nextSigninCard \<Rightarrow>
             if truthy (tokenExchangeResourceUri nextSigninCard)
             then (case trySilentExchange env nextSigninCard w1 of
                     (Inl e, w2) \<Rightarrow> (Inl e, w2)
                   | (Inr (Some exchangeResult), w2) \<Rightarrow>
                       (let exchangeReply = trim (botReply exchangeResult)
                        in if exchangeReply \<noteq> []
                           then processBotReply env exchangeReply
                                  (optTrim (speechText exchangeResult)) w2
                           else (Inr (), setStatus Listening w2))
                   | (Inr None, w2) \<Rightarrow> showReply env response w2)
             else showReply env response w1)"

text \<open>Lines 175 to 178: the interrupt, if the adapter is supplied.\<close>

definition interruptStep ::
  "env \<Rightarrow> event list \<Rightarrow> world \<Rightarrow> (js_error + unit) \<times> world \<times> event list" where
  "interruptStep env pending w =
     (case interruptSpeech env of
        None \<Rightarrow> (Inr (), w, pending)
      | Some r \<Rightarrow>
          (let w1 = emit CallInterruptSpeech w
           in case resumeFillerAt DuringInterruptWait env pending w1 of
                (w2, pending2) \<Rightarrow> (r, w2, pending2)))"

text \<open>
  The \<open>try\<close> block of \<open>runTurn\<close>. Besides the result and the state it returns the requests
  of the filler branch that are still to come when the block is left.
\<close>

definition turnBody ::
  "env \<Rightarrow> jstring \<Rightarrow> world \<Rightarrow> (js_error + unit) \<times> world \<times> event list" where
  "turnBody env cleanText w =
     (let w1 = emits (speakFillerStart env cleanText) w;
          w2 = emit (CallSendCopilotMessage cleanText) w1
      in case resumeFillerAt DuringBackendWait env (speakFillerRest env cleanText) w2 of
           (w3, pending) \<Rightarrow>
             (case sendCopilotMessage env cleanText of
                Inl e \<Rightarrow> (Inl e, w3, pending)
              | Inr response \<Rightarrow>
                  (case interruptStep env pending w3 of
                     (Inl e, w4, pending2) \<Rightarrow> (Inl e, w4, pending2)
                   | (Inr u, w4, pending2) \<Rightarrow>
                       (case catchIgnore (speakFiller env cleanText) of
                          Inl e \<Rightarrow> (Inl e, emits pending2 w4, [])
                        | Inr u2 \<Rightarrow>
                            (case afterFiller env response
                                    (emit FillerSettled (emits pending2 w4)) of
                               (r, w5) \<Rightarrow> (r, w5, []))))))"

text \<open>Lines 160 to 164: what a turn writes before its \<open>try\<close> block.\<close>

definition turnStart :: "env \<Rightarrow> jstring \<Rightarrow> world \<Rightarrow> world" where
  "turnStart env cleanText w =
     (let w1 = setError None w;
          w2 = setSigninCard None w1;
          w3 = setIsProcessing True w2;
          w4 = setStatus Speaking w3
      in setHistoryAppend (message env User cleanText) w4)"

text \<open>
  The state at line 173, where a turn that has started is suspended until the backend
  answers: the writes of lines 160 to 164 are made, the filler's synthesis request and the
  backend query are out.
\<close>

definition awaitingBackend :: "env \<Rightarrow> jstring \<Rightarrow> world \<Rightarrow> world" where
  "awaitingBackend env cleanText w =
     emit (CallSendCopilotMessage cleanText)
       (emits (speakFillerStart env cleanText) (turnStart env cleanText w))"

definition runTurn :: "env \<Rightarrow> closure \<Rightarrow> jstring \<Rightarrow> world \<Rightarrow> outcome \<times> world" where
  "runTurn env cl userText w =
     (let cleanText = trim userText
      in if cleanText = [] \<or> capturedIsProcessing cl then (Resolved, w)
         else
           (case turnBody env cleanText (turnStart env cleanText w) of
              (Inl turnError, w6, pending) \<Rightarrow>
                (Rejected turnError,
                 emits pending
                   (setIsProcessing False
                     (setError (Some (errMessage turnError)) (setStatus ErrorStatus w6))))
            | (Inr u, w6, pending) \<Rightarrow>
                (Resolved, emits pending (setIsProcessing False w6))))"

subsection \<open>Completing a consent card\<close>

text \<open>Lines 266 to 275 and 309 to 318: what both completions do with the backend's answer.\<close>

definition afterCardResult ::
  "env \<Rightarrow> copilot_response \<Rightarrow> world \<Rightarrow> (js_error + unit) \<times> world" where
  "afterCardResult env result w =
     (let botReplyText = trim (botReply result)
      in if botReplyText \<noteq> []
         then processBotReply env botReplyText (optTrim (speechText result)) w
         else (case respSigninCard result of
                 Some c \<Rightarrow> (Inr (), setStatus Listening (setSigninCard (Some c) w))
               | None \<Rightarrow> (Inr (), setStatus Listening w)))"

text \<open>The \<open>catch\<close> and \<open>finally\<close> blocks of both completions: the error is not rethrown.\<close>

definition settleCard :: "(js_error + unit) \<times> world \<Rightarrow> outcome \<times> world" where
  "settleCard rw =
     (case rw of
        (Inl e, w) \<Rightarrow>
          (Resolved,
           setIsExchanging False (setError (Some (errMessage e)) (setStatus ErrorStatus w)))
      | (Inr u, w) \<Rightarrow> (Resolved, setIsExchanging False w))"

definition completeTokenExchange ::
  "env \<Rightarrow> closure \<Rightarrow> jstring \<Rightarrow> world \<Rightarrow> outcome \<times> world" where
  "completeTokenExchange env cl connectionToken w =
     (case capturedSigninCard cl of
        None \<Rightarrow>
          (Rejected (Error (ascii ''No pending signin card with token exchange metadata'')), w)
      | Some theCard \<Rightarrow>
          (case (tokenExchangeResourceId theCard, connectionName theCard,
                 exchangeConnectionToken env) of
             (Some rid, Some cname, Some exchange) \<Rightarrow>
               if rid = [] \<or> cname = []
               then (Rejected
                       (Error (ascii ''No pending signin card with token exchange metadata'')), w)
               else
                 (let w1 = setError None w;
                      w2 = setIsExchanging True w1;
                      w3 = setStatus Thinking w2;
                      params = \<lparr>paramConnectionToken = connectionToken,
                                paramConnectionName = cname,
                                paramTokenExchangeResourceId = rid\<rparr>;
                      w4 = emit (CallExchangeConnectionToken params) w3
                  in settleCard
                       (case exchange params of
                          Inl e \<Rightarrow> (Inl e, w4)
                        | Inr result \<Rightarrow> afterCardResult env result (setSigninCard None w4)))
           | _ \<Rightarrow>
               (Rejected
                  (Error (ascii ''No pending signin card with token exchange metadata'')), w)))"

definition submitAllowAction :: "env \<Rightarrow> closure \<Rightarrow> world \<Rightarrow> outcome \<times> world" where
  "submitAllowAction env cl w =
     (case capturedSigninCard cl of
        None \<Rightarrow> (Rejected (Error (ascii ''No pending signin card with submit action data'')), w)
      | Some theCard \<Rightarrow>
          (case (submitAction theCard, submitCardAction env) of
             (Some action, Some submit) \<Rightarrow>
               (let w1 = setError None w;
                    w2 = setIsExchanging True w1;
                    w3 = setStatus Thinking w2;
                    w4 = emit (CallSubmitCardAction action) w3
                in settleCard
                     (case submit action of
                        Inl e \<Rightarrow> (Inl e, w4)
                      | Inr result \<Rightarrow> afterCardResult env result (setSigninCard None w4)))
           | _ \<Rightarrow>
               (Rejected (Error (ascii ''No pending signin card with submit action data'')), w)))"

definition dismissSigninCard :: "world \<Rightarrow> world" where
  "dismissSigninCard w = setStatus Listening (setSigninCard None w)"

definition clearHistory :: "world \<Rightarrow> world" where
  "clearHistory w = setSigninCard None (setHistoryEmpty w)"

section \<open>Observing an operation\<close>

text \<open>What a component that renders the hook can see: the six state cells.\<close>

definition cells ::
  "world \<Rightarrow> conversation_message list \<times> ui_status \<times> bool \<times> jstring option
     \<times> signin_card option \<times> bool" where
  "cells w = (history w, status w, isProcessing w, error w, signinCard w, isExchanging w)"

text \<open>How an operation settled, and the cells it left.\<close>

definition observable ::
  "outcome \<times> world \<Rightarrow> outcome \<times> conversation_message list \<times> ui_status \<times> bool
     \<times> jstring option \<times> signin_card option \<times> bool" where
  "observable rw = (fst rw, cells (snd rw))"

text \<open>The state writes and adapter requests made between two states.\<close>

definition eventsSince :: "world \<Rightarrow> world \<Rightarrow> event list" where
  "eventsSince w w' = drop (length (trace w)) (trace w')"

definition turnEvents :: "env \<Rightarrow> closure \<Rightarrow> jstring \<Rightarrow> world \<Rightarrow> event list" where
  "turnEvents env cl userText w = eventsSince w (snd (runTurn env cl userText w))"

text \<open>
  The requests of a turn up to the point where the filler branch is awaited, in the order
  they are issued, when the backend query resolves and the interrupt does not reject.
\<close>

definition preJoinEvents :: "env \<Rightarrow> jstring \<Rightarrow> event list" where
  "preJoinEvents env cleanText =
     speakFillerStart env cleanText @ [CallSendCopilotMessage cleanText]
     @ (if fillerResume env = DuringBackendWait then speakFillerRest env cleanText else [])
     @ (case interruptSpeech env of None \<Rightarrow> [] | Some r \<Rightarrow> [CallInterruptSpeech])
     @ (if fillerResume env = DuringBackendWait then [] else speakFillerRest env cleanText)"

text \<open>The writes of lines 160 to 164.\<close>

definition turnStartEvents :: "env \<Rightarrow> jstring \<Rightarrow> event list" where
  "turnStartEvents env cleanText =
     [SetError None, SetSigninCard None, SetIsProcessing True, SetStatus Speaking,
      SetHistoryAppend (message env User cleanText)]"

text \<open>
  The same collaborators, but with other answers to the filler branch: its speech
  synthesis, its playback and the moment it resumes.
\<close>

definition withFiller ::
  "(jstring \<Rightarrow> js_error + tts_response) \<Rightarrow> (jstring \<Rightarrow> js_error + unit) \<Rightarrow> filler_resume
     \<Rightarrow> env \<Rightarrow> env" where
  "withFiller f g s env =
     env\<lparr>fetchTts := (fetchTts env)(Filler := f),
         speakAudio := (speakAudio env)(Filler := g),
         fillerResume := s\<rparr>"

text \<open>
  The error with which a request rejects, for the requests outside the filler branch:
  the backend query, the interrupt, the silent credential acquisition, the token
  exchange, the card submission, and the synthesis and playback of the reply.
\<close>

definition nonFillerRejection :: "env \<Rightarrow> event \<Rightarrow> js_error option" where
  "nonFillerRejection env ev =
     (case ev of
        CallSendCopilotMessage t \<Rightarrow>
          (case sendCopilotMessage env t of Inl e \<Rightarrow> Some e | Inr r \<Rightarrow> None)
      | CallInterruptSpeech \<Rightarrow>
          (case interruptSpeech env of Some (Inl e) \<Rightarrow> Some e | _ \<Rightarrow> None)
      | CallAcquireConnectionToken uri \<Rightarrow>
          (case acquireConnectionToken env of
             Some acquire \<Rightarrow> (case acquire uri of Inl e \<Rightarrow> Some e | Inr v \<Rightarrow> None)
           | None \<Rightarrow> None)
      | CallExchangeConnectionToken params \<Rightarrow>
          (case exchangeConnectionToken env of
             Some exchange \<Rightarrow> (case exchange params of Inl e \<Rightarrow> Some e | Inr r \<Rightarrow> None)
           | None \<Rightarrow> None)
      | CallSubmitCardAction action \<Rightarrow>
          (case submitCardAction env of
             Some submit \<Rightarrow> (case submit action of Inl e \<Rightarrow> Some e | Inr r \<Rightarrow> None)
           | None \<Rightarrow> None)
      | CallFetchTts site t \<Rightarrow>
          (case site of
             Filler \<Rightarrow> None
           | Reply \<Rightarrow> (case ttsResult env Reply t of Inl e \<Rightarrow> Some e | Inr a \<Rightarrow> None))
      | CallSpeakAudio site audio \<Rightarrow>
          (case site of
             Filler \<Rightarrow> None
           | Reply \<Rightarrow> (case speakAudio env Reply audio of Inl e \<Rightarrow> Some e | Inr u \<Rightarrow> None))
      | _ \<Rightarrow> None)"

text \<open>The playback request for the final reply.\<close>

definition isReplyPlayback :: "event \<Rightarrow> bool" where
  "isReplyPlayback ev = (case ev of CallSpeakAudio site audio \<Rightarrow> site = Reply | _ \<Rightarrow> False)"

text \<open>A write that makes a card pending.\<close>

definition isShowCard :: "event \<Rightarrow> bool" where
  "isShowCard ev = (case ev of SetSigninCard v \<Rightarrow> v \<noteq> None | _ \<Rightarrow> False)"

text \<open>An adapter request of any kind.\<close>

definition isAdapterCall :: "event \<Rightarrow> bool" where
  "isAdapterCall ev =
     (case ev of
        CallFetchTts site t \<Rightarrow> True
      | CallSpeakAudio site audio \<Rightarrow> True
      | CallSendCopilotMessage t \<Rightarrow> True
      | CallInterruptSpeech \<Rightarrow> True
      | CallAcquireConnectionToken uri \<Rightarrow> True
      | CallExchangeConnectionToken params \<Rightarrow> True
      | CallSubmitCardAction action \<Rightarrow> True
      | _ \<Rightarrow> False)"

text \<open>
  The kinds of events that follow the join of a turn, or the backend's answer to a card
  completion: writes of history, status and pending card, the consent requests, and the
  synthesis and playback of the reply.
\<close>

definition isTailEvent :: "event \<Rightarrow> bool" where
  "isTailEvent ev =
     (case ev of
        SetHistoryAppend m \<Rightarrow> True
      | SetStatus v \<Rightarrow> True
      | SetSigninCard v \<Rightarrow> True
      | CallAcquireConnectionToken uri \<Rightarrow> True
      | CallExchangeConnectionToken params \<Rightarrow> True
      | CallFetchTts site t \<Rightarrow> site = Reply
      | CallSpeakAudio site audio \<Rightarrow> site = Reply
      | _ \<Rightarrow> False)"

text \<open>
  The guards of \<open>completeTokenExchange\<close> (lines 244 to 248) and \<open>submitAllowAction\<close>
  (line 293) pass, on the card the callback carries.
\<close>

definition exchangeReady :: "env \<Rightarrow> closure \<Rightarrow> bool" where
  "exchangeReady env cl =
     (case capturedSigninCard cl of
        None \<Rightarrow> False
      | Some c \<Rightarrow>
          truthy (tokenExchangeResourceId c) \<and> truthy (connectionName c)
          \<and> exchangeConnectionToken env \<noteq> None)"

definition submitReady :: "env \<Rightarrow> closure \<Rightarrow> bool" where
  "submitReady env cl =
     (case capturedSigninCard cl of
        None \<Rightarrow> False
      | Some c \<Rightarrow> submitAction c \<noteq> None \<and> submitCardAction env \<noteq> None)"

section \<open>Concrete sessions\<close>

text \<open>The state of a freshly mounted hook: the initial values of the \<open>useState\<close> cells.\<close>

definition freshWorld :: world where
  "freshWorld =
     \<lparr>history = [], status = Idle, isProcessing = False, error = None, signinCard = None,
      isExchanging = False, trace = []\<rparr>"

definition okTts :: tts_response where
  "okTts = \<lparr>ok = True, bodyText = Inr [], bodyJsonAudio = Inr (Some (ascii ''UklGRg''))\<rparr>"

definition plainReply :: copilot_response where
  "plainReply = \<lparr>botReply = ascii '' Hi there '', speechText = None, respSigninCard = None\<rparr>"

text \<open>
  Collaborators that all succeed: a filler template is configured, the backend answers
  with plain text, the interrupt adapter is supplied, the consent adapters are not.
\<close>

definition plainEnv :: env where
  "plainEnv =
     \<lparr>fillerTemplateVar = Some (ascii ''Checking {{input}}''),
      fetchTts = (\<lambda>site t. Inr okTts),
      speakAudio = (\<lambda>site audio. Inr ()),
      sendCopilotMessage = (\<lambda>t. Inr plainReply),
      interruptSpeech = Some (Inr ()),
      acquireConnectionToken = None,
      exchangeConnectionToken = None,
      submitCardAction = None,
      dateNow = (\<lambda>r k. 1700000000000),
      mathRandom36 = (\<lambda>r. ascii ''k3x9qa''),
      fillerResume = DuringBackendWait\<rparr>"

text \<open>The same collaborators, but every request of the filler branch fails, and late.\<close>

definition fillerDown :: "env \<Rightarrow> env" where
  "fillerDown env =
     withFiller (\<lambda>t. Inl (Error (ascii ''tts down''))) (\<lambda>audio. Inl (Error (ascii ''no avatar'')))
       Afterwards env"

text \<open>The backend answers with whitespace only.\<close>

definition blankReply :: copilot_response where
  "blankReply = \<lparr>botReply = ascii ''  '', speechText = None, respSigninCard = None\<rparr>"

definition blankReplyEnv :: env where
  "blankReplyEnv = plainEnv\<lparr>sendCopilotMessage := (\<lambda>t. Inr blankReply)\<rparr>"

text \<open>The interrupt adapter is supplied and rejects; the interrupt adapter is not supplied.\<close>

definition interruptFailEnv :: env where
  "interruptFailEnv = plainEnv\<lparr>interruptSpeech := Some (Inl (Error (ascii ''interrupt failed'')))\<rparr>"


text \<open>A consent card with token exchange metadata, and the backend answers around it.\<close>

definition consentCard :: signin_card where
  "consentCard =
     \<lparr>title = ascii ''Connect'',
      cardMessage = ascii ''Sign in to continue'',
      tokenExchangeResourceUri = Some (ascii ''api://files/.default''),
      tokenExchangeResourceId = Some (ascii ''res-1''),
      connectionName = Some (ascii ''SharePoint''),
      submitAction = Some [(ascii ''action'', ascii ''Allow'')]\<rparr>"

definition cardReply :: copilot_response where
  "cardReply = \<lparr>botReply = [], speechText = None, respSigninCard = Some consentCard\<rparr>"

definition exchangedReply :: copilot_response where
  "exchangedReply =
     \<lparr>botReply = ascii ''Here are your files'', speechText = None, respSigninCard = None\<rparr>"

text \<open>The backend asks for consent; the consent adapters are not supplied (not signed in).\<close>

definition signedOutEnv :: env where
  "signedOutEnv = plainEnv\<lparr>sendCopilotMessage := (\<lambda>t. Inr cardReply)\<rparr>"

text \<open>The backend asks for consent; the silent acquisition and the exchange succeed.\<close>

definition silentEnv :: env where
  "silentEnv =
     plainEnv\<lparr>sendCopilotMessage := (\<lambda>t. Inr cardReply),
              acquireConnectionToken := Some (\<lambda>uri. Inr (Some (ascii ''tok''))),
              exchangeConnectionToken := Some (\<lambda>params. Inr exchangedReply),
              submitCardAction := Some (\<lambda>action. Inr exchangedReply)\<rparr>"

text \<open>The same, but the interrupt rejects.\<close>

definition silentInterruptFailEnv :: env where
  "silentInterruptFailEnv =
     silentEnv\<lparr>interruptSpeech := Some (Inl (Error (ascii ''interrupt failed'')))\<rparr>"

text \<open>The same as \<open>silentEnv\<close>, but the exchange answers with whitespace only.\<close>

definition silentBlankEnv :: env where
  "silentBlankEnv = silentEnv\<lparr>exchangeConnectionToken := Some (\<lambda>params. Inr blankReply)\<rparr>"

text \<open>The exchange succeeds, then the speech synthesis of the reply fails.\<close>

definition ttsDownEnv :: env where
  "ttsDownEnv = silentEnv\<lparr>fetchTts := (\<lambda>site t. Inl (Error (ascii ''tts down'')))\<rparr>"

text \<open>The exchange and the card submission themselves fail.\<close>

definition exchangeFailEnv :: env where
  "exchangeFailEnv =
     silentEnv\<lparr>exchangeConnectionToken := Some (\<lambda>params. Inl (Error (ascii ''exchange failed''))),
               submitCardAction := Some (\<lambda>action. Inl (Error (ascii ''submit failed'')))\<rparr>"

text \<open>A session in which the consent card is pending.\<close>

definition pendingWorld :: world where
  "pendingWorld = freshWorld\<lparr>status := Listening, signinCard := Some consentCard\<rparr>"

section \<open>Unfolding the state writes\<close>

lemmas world_defs =
  emit_def emits_def setHistoryAppend_def setHistoryEmpty_def setStatus_def
  setIsProcessing_def setError_def setSigninCard_def setIsExchanging_def

lemmas setter_defs = setHistoryAppend_def setHistoryEmpty_def setStatus_def
  setIsProcessing_def setError_def setSigninCard_def setIsExchanging_def

section \<open>The log is only appended to\<close>

lemma speakFiller_settles: "catchIgnore (speakFiller env t) = Inr ()"
  by (simp add: catchIgnore_def speakFiller_def split: sum.splits)

lemma processBotReply_frame:
  "processBotReply env d s (w\<lparr>trace := tr\<rparr>)
   = (fst (processBotReply env d s w),
      (snd (processBotReply env d s w))
        \<lparr>trace := tr @ drop (length (trace w)) (trace (snd (processBotReply env d s w)))\<rparr>)"
  by (simp add: processBotReply_def synthesizeSpeech_def Let_def world_defs split: sum.splits)

lemma trySilentExchange_frame:
  "trySilentExchange env c (w\<lparr>trace := tr\<rparr>)
   = (fst (trySilentExchange env c w),
      (snd (trySilentExchange env c w))
        \<lparr>trace := tr @ drop (length (trace w)) (trace (snd (trySilentExchange env c w)))\<rparr>)"
  by (simp add: trySilentExchange_def Let_def world_defs split: sum.splits option.splits)

lemma showReply_frame:
  "showReply env r (w\<lparr>trace := tr\<rparr>)
   = (fst (showReply env r w),
      (snd (showReply env r w))
        \<lparr>trace := tr @ drop (length (trace w)) (trace (snd (showReply env r w)))\<rparr>)"
  by (simp add: showReply_def Let_def world_defs processBotReply_frame split: option.splits)

lemma afterFiller_frame:
  "afterFiller env r (w\<lparr>trace := tr\<rparr>)
   = (fst (afterFiller env r w),
      (snd (afterFiller env r w))
        \<lparr>trace := tr @ drop (length (trace w)) (trace (snd (afterFiller env r w)))\<rparr>)"
  by (simp add: afterFiller_def Let_def split_beta world_defs
      processBotReply_frame showReply_frame trySilentExchange_frame
      split: option.splits sum.splits)

lemma afterCardResult_frame:
  "afterCardResult env r (w\<lparr>trace := tr\<rparr>)
   = (fst (afterCardResult env r w),
      (snd (afterCardResult env r w))
        \<lparr>trace := tr @ drop (length (trace w)) (trace (snd (afterCardResult env r w)))\<rparr>)"
  by (simp add: afterCardResult_def Let_def world_defs processBotReply_frame split: option.splits)

text \<open>Hence the log after a step is the log before it, followed by the step's own events.\<close>

lemma trace_from_frame:
  assumes "\<And>tr. f (w\<lparr>trace := tr\<rparr>)
             = (fst (f w), (snd (f w))\<lparr>trace := tr @ drop (length (trace w)) (trace (snd (f w)))\<rparr>)"
  shows "trace (snd (f w)) = trace w @ eventsSince w (snd (f w))"
proof -
  have "f w = f (w\<lparr>trace := trace w\<rparr>)" by simp
  also have "\<dots> = (fst (f w),
      (snd (f w))\<lparr>trace := trace w @ drop (length (trace w)) (trace (snd (f w)))\<rparr>)"
    by (rule assms)
  finally have "snd (f w)
      = (snd (f w))\<lparr>trace := trace w @ drop (length (trace w)) (trace (snd (f w)))\<rparr>"
    by (metis snd_conv)
  then have "trace (snd (f w))
      = trace ((snd (f w))\<lparr>trace := trace w @ drop (length (trace w)) (trace (snd (f w)))\<rparr>)"
    by simp
  then show ?thesis by (simp add: eventsSince_def)
qed

lemma processBotReply_trace:
  "trace (snd (processBotReply env d s w))
   = trace w @ eventsSince w (snd (processBotReply env d s w))"
  by (rule trace_from_frame) (rule processBotReply_frame)

lemma trySilentExchange_trace:
  "trace (snd (trySilentExchange env c w))
   = trace w @ eventsSince w (snd (trySilentExchange env c w))"
  by (rule trace_from_frame) (rule trySilentExchange_frame)

lemma showReply_trace:
  "trace (snd (showReply env r w)) = trace w @ eventsSince w (snd (showReply env r w))"
  by (rule trace_from_frame) (rule showReply_frame)

lemma afterFiller_trace:
  "trace (snd (afterFiller env r w)) = trace w @ eventsSince w (snd (afterFiller env r w))"
  by (rule trace_from_frame) (rule afterFiller_frame)

lemma afterCardResult_trace:
  "trace (snd (afterCardResult env r w))
   = trace w @ eventsSince w (snd (afterCardResult env r w))"
  by (rule trace_from_frame) (rule afterCardResult_frame)

lemma turnBody_send_rejects:
  assumes "sendCopilotMessage env t = Inl e"
  shows "turnBody env t w =
    (Inl e,
     emits (speakFillerStart env t @ [CallSendCopilotMessage t]
            @ (if fillerResume env = DuringBackendWait then speakFillerRest env t else [])) w,
     if fillerResume env = DuringBackendWait then [] else speakFillerRest env t)"
  using assms
  by (simp add: turnBody_def resumeFillerAt_def Let_def emit_def emits_def)

lemma turnBody_interrupt_rejects:
  assumes "sendCopilotMessage env t = Inr r" and "interruptSpeech env = Some (Inl e)"
  shows "turnBody env t w =
    (Inl e,
     emits (speakFillerStart env t @ [CallSendCopilotMessage t]
            @ (if fillerResume env = DuringBackendWait then speakFillerRest env t else [])
            @ [CallInterruptSpeech]
            @ (if fillerResume env = DuringInterruptWait then speakFillerRest env t else [])) w,
     if fillerResume env = Afterwards then speakFillerRest env t else [])"
  using assms
  by (cases "fillerResume env")
     (simp_all add: turnBody_def interruptStep_def resumeFillerAt_def Let_def emit_def emits_def)

lemma turnBody_joined:
  assumes "sendCopilotMessage env t = Inr r"
    and "interruptSpeech env = None \<or> interruptSpeech env = Some (Inr ())"
  shows "turnBody env t w =
    (fst (afterFiller env r (emits (preJoinEvents env t @ [FillerSettled]) w)),
     snd (afterFiller env r (emits (preJoinEvents env t @ [FillerSettled]) w)),
     [])"
  using assms
  by (cases "fillerResume env")
     (auto simp add: turnBody_def interruptStep_def resumeFillerAt_def Let_def emit_def emits_def
        preJoinEvents_def speakFiller_settles split_beta)


lemma emits_Nil [simp]: "emits [] w = w"
  by (simp add: emits_def)

lemma emits_emits: "emits ys (emits xs w) = emits (xs @ ys) w"
  by (simp add: emits_def)

lemma trace_turnStart:
  "trace (turnStart env c w) = trace w @ turnStartEvents env c"
  by (simp add: turnStart_def turnStartEvents_def Let_def world_defs)

lemma cells_turnStart:
  "cells (turnStart env c w)
   = (history w @ [message env User c], Speaking, True, None, None, isExchanging w)"
  by (simp add: cells_def turnStart_def Let_def world_defs)

lemma runTurn_send_rejects:
  assumes "trim t \<noteq> []" and "\<not> capturedIsProcessing cl"
    and "sendCopilotMessage env (trim t) = Inl e"
  shows "runTurn env cl t w =
    (Rejected e,
     emits (if fillerResume env = DuringBackendWait then [] else speakFillerRest env (trim t))
       (setIsProcessing False (setError (Some (errMessage e)) (setStatus ErrorStatus
          (emits (speakFillerStart env (trim t) @ [CallSendCopilotMessage (trim t)]
                  @ (if fillerResume env = DuringBackendWait
                     then speakFillerRest env (trim t) else []))
             (turnStart env (trim t) w))))))"
  using assms by (simp add: runTurn_def Let_def turnBody_send_rejects)

lemma runTurn_interrupt_rejects:
  assumes "trim t \<noteq> []" and "\<not> capturedIsProcessing cl"
    and "sendCopilotMessage env (trim t) = Inr r" and "interruptSpeech env = Some (Inl e)"
  shows "runTurn env cl t w =
    (Rejected e,
     emits (if fillerResume env = Afterwards then speakFillerRest env (trim t) else [])
       (setIsProcessing False (setError (Some (errMessage e)) (setStatus ErrorStatus
          (emits (speakFillerStart env (trim t) @ [CallSendCopilotMessage (trim t)]
                  @ (if fillerResume env = DuringBackendWait
                     then speakFillerRest env (trim t) else [])
                  @ [CallInterruptSpeech]
                  @ (if fillerResume env = DuringInterruptWait
                     then speakFillerRest env (trim t) else []))
             (turnStart env (trim t) w))))))"
  using assms by (simp add: runTurn_def Let_def turnBody_interrupt_rejects)

text \<open>The state in which the turn goes on once the filler branch has settled.\<close>

lemma runTurn_joined:
  assumes "trim t \<noteq> []" and "\<not> capturedIsProcessing cl"
    and "sendCopilotMessage env (trim t) = Inr r"
    and "interruptSpeech env = None \<or> interruptSpeech env = Some (Inr ())"
  shows "runTurn env cl t w =
    (case fst (afterFiller env r
                 (emits (preJoinEvents env (trim t) @ [FillerSettled]) (turnStart env (trim t) w))) of
       Inl e \<Rightarrow>
         (Rejected e,
          setIsProcessing False (setError (Some (errMessage e)) (setStatus ErrorStatus
            (snd (afterFiller env r
                 (emits (preJoinEvents env (trim t) @ [FillerSettled])
                    (turnStart env (trim t) w)))))))
     | Inr u \<Rightarrow>
         (Resolved,
          setIsProcessing False
            (snd (afterFiller env r
                 (emits (preJoinEvents env (trim t) @ [FillerSettled])
                    (turnStart env (trim t) w))))))"
  using assms by (simp add: runTurn_def Let_def turnBody_joined [OF assms(3,4)] split: sum.splits)

lemma fields_emit [simp]:
  "history (emit e w) = history w" "status (emit e w) = status w"
  "isProcessing (emit e w) = isProcessing w" "error (emit e w) = error w"
  "signinCard (emit e w) = signinCard w" "isExchanging (emit e w) = isExchanging w"
  "trace (emit e w) = trace w @ [e]"
  by (simp_all add: emit_def)

lemma fields_emits [simp]:
  "history (emits es w) = history w" "status (emits es w) = status w"
  "isProcessing (emits es w) = isProcessing w" "error (emits es w) = error w"
  "signinCard (emits es w) = signinCard w" "isExchanging (emits es w) = isExchanging w"
  "trace (emits es w) = trace w @ es"
  by (simp_all add: emits_def)

lemma turnEvents_joined:
  assumes "trim t \<noteq> []" and "\<not> capturedIsProcessing cl"
    and "sendCopilotMessage env (trim t) = Inr r"
    and "interruptSpeech env = None \<or> interruptSpeech env = Some (Inr ())"
  shows "\<exists>post. turnEvents env cl t w =
     turnStartEvents env (trim t) @ preJoinEvents env (trim t) @ [FillerSettled]
     @ eventsSince (emits (preJoinEvents env (trim t) @ [FillerSettled]) (turnStart env (trim t) w))
         (snd (afterFiller env r
            (emits (preJoinEvents env (trim t) @ [FillerSettled]) (turnStart env (trim t) w))))
     @ post \<and> set post \<subseteq> {SetStatus ErrorStatus, SetIsProcessing False} \<union> range SetError"
  unfolding turnEvents_def eventsSince_def
  by (simp add: runTurn_joined [OF assms] afterFiller_trace trace_turnStart setter_defs
      split: sum.splits)

section \<open>What the steps after the join do\<close>

lemma eventsSince_self [simp]: "eventsSince w w = []"
  by (simp add: eventsSince_def)

lemma processBotReply_history:
  "history (snd (processBotReply env d s w)) = history w @ [message env Assistant d]"
  by (simp add: processBotReply_def synthesizeSpeech_def Let_def setter_defs split: sum.splits)

lemma processBotReply_resolves:
  assumes "fst (processBotReply env d s w) = Inr u"
  shows "status (snd (processBotReply env d s w)) = Listening"
proof (cases "ttsResult env Reply (orElse s d)")
  case (Inl e)
  with assms show ?thesis
    by (simp add: processBotReply_def synthesizeSpeech_def Let_def)
next
  case (Inr audio)
  with assms show ?thesis
    by (cases "speakAudio env Reply audio")
       (simp_all add: processBotReply_def synthesizeSpeech_def Let_def setter_defs)
qed

lemma eventsSince_via:
  assumes "trace w1 = trace w @ pre" and "trace w2 = trace w1 @ eventsSince w1 w2"
  shows "eventsSince w w2 = pre @ eventsSince w1 w2"
proof -
  obtain post where post: "trace w2 = trace w1 @ post"
    using assms(2) by blast
  then have "eventsSince w1 w2 = post" by (simp add: eventsSince_def)
  moreover from post assms(1) have "eventsSince w w2 = pre @ post"
    by (simp add: eventsSince_def)
  ultimately show ?thesis by simp
qed

lemma processBotReply_rejects:
  assumes "fst (processBotReply env d s w) = Inl e"
  shows "\<exists>ev \<in> set (eventsSince w (snd (processBotReply env d s w))).
           nonFillerRejection env ev = Some e"
proof (cases "ttsResult env Reply (orElse s d)")
  case (Inl e')
  with assms show ?thesis
    by (simp add: eventsSince_def nonFillerRejection_def processBotReply_def
        synthesizeSpeech_def Let_def setter_defs)
next
  case (Inr audio)
  with assms show ?thesis
    by (cases "speakAudio env Reply audio")
       (simp_all add: eventsSince_def nonFillerRejection_def processBotReply_def
          synthesizeSpeech_def Let_def setter_defs)
qed

lemma trySilentExchange_cells: "cells (snd (trySilentExchange env c w)) = cells w"
  by (simp add: cells_def trySilentExchange_def Let_def split: sum.splits option.splits)

lemma trySilentExchange_rejects:
  "fst (trySilentExchange env c w) = Inl e \<Longrightarrow>
   \<exists>ev \<in> set (eventsSince w (snd (trySilentExchange env c w))). nonFillerRejection env ev = Some e"
  by (auto simp add: eventsSince_def nonFillerRejection_def trySilentExchange_def Let_def
      split: sum.splits option.splits if_splits)

lemma showReply_history:
  "\<exists>ms. history (snd (showReply env r w)) = history w @ ms"
  by (simp add: showReply_def Let_def setter_defs processBotReply_history split: option.splits)

lemma showReply_resolves:
  "fst (showReply env r w) = Inr u \<Longrightarrow> status (snd (showReply env r w)) = Listening"
  by (auto simp add: showReply_def Let_def setter_defs processBotReply_resolves
      split: option.splits if_splits)

lemma showReply_rejects:
  assumes "fst (showReply env r w) = Inl e"
  shows "\<exists>ev \<in> set (eventsSince w (snd (showReply env r w))). nonFillerRejection env ev = Some e"
proof -
  let ?w1 = "case respSigninCard r of None \<Rightarrow> w | Some c \<Rightarrow> setSigninCard (Some c) w"
  let ?p = "processBotReply env (trim (botReply r)) (optTrim (speechText r)) ?w1"
  from assms have reply: "trim (botReply r) \<noteq> []" and same: "showReply env r w = ?p"
    by (auto simp add: showReply_def Let_def split: if_splits)
  with assms have "fst ?p = Inl e" by simp
  then obtain ev where ev: "ev \<in> set (eventsSince ?w1 (snd ?p))"
    and rej: "nonFillerRejection env ev = Some e"
    using processBotReply_rejects by blast
  have "trace (snd ?p) = trace ?w1 @ eventsSince ?w1 (snd ?p)"
    by (rule processBotReply_trace)
  moreover obtain pre where "trace ?w1 = trace w @ pre"
    by (cases "respSigninCard r") (simp_all add: setter_defs)
  ultimately have "eventsSince w (snd ?p) = pre @ eventsSince ?w1 (snd ?p)"
    by (rule eventsSince_via [rotated])
  with ev rej same show ?thesis by auto
qed


subsection \<open>afterFiller\<close>

lemma afterFiller_plain:
  assumes "case respSigninCard r of None \<Rightarrow> True
           | Some c \<Rightarrow> \<not> truthy (tokenExchangeResourceUri c)"
  shows "afterFiller env r w = showReply env r (setStatus Thinking w)"
  using assms by (simp add: afterFiller_def Let_def split: option.splits)

lemma afterFiller_silent:
  assumes "respSigninCard r = Some c" and "truthy (tokenExchangeResourceUri c)"
  shows "afterFiller env r w =
     (case fst (trySilentExchange env c (setStatus Thinking w)) of
        Inl e \<Rightarrow> (Inl e, snd (trySilentExchange env c (setStatus Thinking w)))
      | Inr None \<Rightarrow> showReply env r (snd (trySilentExchange env c (setStatus Thinking w)))
      | Inr (Some x) \<Rightarrow>
          if trim (botReply x) \<noteq> []
          then processBotReply env (trim (botReply x)) (optTrim (speechText x))
                 (snd (trySilentExchange env c (setStatus Thinking w)))
          else (Inr (), setStatus Listening (snd (trySilentExchange env c (setStatus Thinking w)))))"
proof (cases "fst (trySilentExchange env c (setStatus Thinking w))")
  case (Inl e)
  with assms show ?thesis by (simp add: afterFiller_def Let_def split_beta)
next
  case (Inr v)
  with assms show ?thesis by (cases v) (simp_all add: afterFiller_def Let_def split_beta)
qed

lemma afterFiller_resolves:
  assumes "fst (afterFiller env r w) = Inr u"
  shows "status (snd (afterFiller env r w)) = Listening"
proof (cases "case respSigninCard r of None \<Rightarrow> True
              | Some c \<Rightarrow> \<not> truthy (tokenExchangeResourceUri c)")
  case True
  with assms show ?thesis
    by (simp add: afterFiller_plain showReply_resolves)
next
  case False
  then obtain c where c: "respSigninCard r = Some c" "truthy (tokenExchangeResourceUri c)"
    by (auto split: option.splits)
  show ?thesis
  proof (cases "fst (trySilentExchange env c (setStatus Thinking w))")
    case (Inl e)
    with assms c show ?thesis by (simp add: afterFiller_silent)
  next
    case (Inr v)
    with assms c show ?thesis
      by (cases v)
         (auto simp add: afterFiller_silent showReply_resolves processBotReply_resolves
            setter_defs split: if_splits)
  qed
qed

lemma afterFiller_history:
  "\<exists>ms. history (snd (afterFiller env r w)) = history w @ ms"
proof (cases "case respSigninCard r of None \<Rightarrow> True
              | Some c \<Rightarrow> \<not> truthy (tokenExchangeResourceUri c)")
  case True
  with showReply_history [of env r "setStatus Thinking w"] show ?thesis
    by (simp add: afterFiller_plain setter_defs)
next
  case False
  then obtain c where c: "respSigninCard r = Some c" "truthy (tokenExchangeResourceUri c)"
    by (auto split: option.splits)
  let ?x = "trySilentExchange env c (setStatus Thinking w)"
  have same: "history (snd ?x) = history w"
    using trySilentExchange_cells [of env c "setStatus Thinking w"]
    by (simp add: cells_def setter_defs)
  show ?thesis
  proof (cases "fst ?x")
    case (Inl e)
    with c same show ?thesis by (simp add: afterFiller_silent)
  next
    case (Inr v)
    with c same showReply_history [of env r "snd ?x"] show ?thesis
      by (cases v) (auto simp add: afterFiller_silent processBotReply_history setter_defs)
  qed
qed

lemma trace_setStatus: "trace (setStatus v w) = trace w @ [SetStatus v]"
  by (simp add: setter_defs)

lemma afterFiller_rejects:
  assumes "fst (afterFiller env r w) = Inl e"
  shows "\<exists>ev \<in> set (eventsSince w (snd (afterFiller env r w))). nonFillerRejection env ev = Some e"
proof (cases "case respSigninCard r of None \<Rightarrow> True
              | Some c \<Rightarrow> \<not> truthy (tokenExchangeResourceUri c)")
  case True
  let ?v = "setStatus Thinking w"
  from True assms have "fst (showReply env r ?v) = Inl e"
    by (simp add: afterFiller_plain)
  then obtain ev where ev: "ev \<in> set (eventsSince ?v (snd (showReply env r ?v)))"
    "nonFillerRejection env ev = Some e"
    using showReply_rejects by blast
  have "eventsSince w (snd (showReply env r ?v))
      = [SetStatus Thinking] @ eventsSince ?v (snd (showReply env r ?v))"
    by (rule eventsSince_via [OF trace_setStatus showReply_trace])
  with ev True show ?thesis by (auto simp add: afterFiller_plain)
next
  case False
  then obtain c where c: "respSigninCard r = Some c" "truthy (tokenExchangeResourceUri c)"
    by (auto split: option.splits)
  let ?v = "setStatus Thinking w"
  let ?x = "trySilentExchange env c ?v"
  have vx: "eventsSince w (snd ?x) = [SetStatus Thinking] @ eventsSince ?v (snd ?x)"
    by (rule eventsSince_via [OF trace_setStatus trySilentExchange_trace])
  have wx: "trace (snd ?x) = trace w @ eventsSince w (snd ?x)"
    using trySilentExchange_trace [of env c ?v] by (simp add: vx trace_setStatus)
  show ?thesis
  proof (cases "fst ?x")
    case (Inl e')
    with assms c have "e' = e" by (simp add: afterFiller_silent)
    with Inl trySilentExchange_rejects [of env c ?v e] vx c show ?thesis
      by (auto simp add: afterFiller_silent)
  next
    case (Inr v)
    show ?thesis
    proof (cases v)
      case None
      with Inr assms c have "fst (showReply env r (snd ?x)) = Inl e"
        by (simp add: afterFiller_silent)
      then obtain ev where ev: "ev \<in> set (eventsSince (snd ?x) (snd (showReply env r (snd ?x))))"
        "nonFillerRejection env ev = Some e"
        using showReply_rejects by blast
      have "eventsSince w (snd (showReply env r (snd ?x)))
          = eventsSince w (snd ?x) @ eventsSince (snd ?x) (snd (showReply env r (snd ?x)))"
        by (rule eventsSince_via [OF wx showReply_trace])
      with ev None Inr c show ?thesis by (auto simp add: afterFiller_silent)
    next
      case (Some x)
      let ?p = "processBotReply env (trim (botReply x)) (optTrim (speechText x)) (snd ?x)"
      from Some Inr assms c have reply: "trim (botReply x) \<noteq> []" and "fst ?p = Inl e"
        by (auto simp add: afterFiller_silent split: if_splits)
      then obtain ev where ev: "ev \<in> set (eventsSince (snd ?x) (snd ?p))"
        "nonFillerRejection env ev = Some e"
        using processBotReply_rejects by blast
      have "eventsSince w (snd ?p) = eventsSince w (snd ?x) @ eventsSince (snd ?x) (snd ?p)"
        by (rule eventsSince_via [OF wx processBotReply_trace])
      with ev Some Inr c reply show ?thesis by (auto simp add: afterFiller_silent)
    qed
  qed
qed

section \<open>The filler branch is isolated\<close>

lemma withFiller_fields [simp]:
  "fillerTemplateVar (withFiller f g s env) = fillerTemplateVar env"
  "fetchTts (withFiller f g s env) Reply = fetchTts env Reply"
  "speakAudio (withFiller f g s env) Reply = speakAudio env Reply"
  "sendCopilotMessage (withFiller f g s env) = sendCopilotMessage env"
  "interruptSpeech (withFiller f g s env) = interruptSpeech env"
  "acquireConnectionToken (withFiller f g s env) = acquireConnectionToken env"
  "exchangeConnectionToken (withFiller f g s env) = exchangeConnectionToken env"
  "submitCardAction (withFiller f g s env) = submitCardAction env"
  "dateNow (withFiller f g s env) = dateNow env"
  "mathRandom36 (withFiller f g s env) = mathRandom36 env"
  by (simp_all add: withFiller_def)

lemma message_withFiller [simp]: "message (withFiller f g s env) = message env"
  by (simp add: fun_eq_iff message_def)

lemma ttsResult_withFiller [simp]:
  "ttsResult (withFiller f g s env) Reply = ttsResult env Reply"
  by (simp add: fun_eq_iff ttsResult_def)

lemma processBotReply_withFiller [simp]:
  "processBotReply (withFiller f g s env) = processBotReply env"
  by (simp add: fun_eq_iff processBotReply_def synthesizeSpeech_def
      cong: sum.case_cong prod.case_cong)

lemma trySilentExchange_withFiller [simp]:
  "trySilentExchange (withFiller f g s env) = trySilentExchange env"
  by (simp add: fun_eq_iff trySilentExchange_def)

lemma showReply_withFiller [simp]:
  "showReply (withFiller f g s env) = showReply env"
  by (simp add: fun_eq_iff showReply_def Let_def cong: if_cong option.case_cong)

lemma afterFiller_withFiller [simp]:
  "afterFiller (withFiller f g s env) = afterFiller env"
  by (simp add: fun_eq_iff afterFiller_def Let_def
      cong: if_cong option.case_cong sum.case_cong prod.case_cong)

lemma turnStart_withFiller [simp]:
  "turnStart (withFiller f g s env) = turnStart env"
  by (simp add: fun_eq_iff turnStart_def)

lemma turnBody_withFiller:
  "fst (turnBody (withFiller f g s env) t w) = fst (turnBody env t w)
   \<and> cells (fst (snd (turnBody (withFiller f g s env) t w)))
       = cells (fst (snd (turnBody env t w)))"
  by (simp add: turnBody_def interruptStep_def resumeFillerAt_def Let_def split_beta
      emit_def emits_def speakFiller_settles afterFiller_frame cells_def
      split: sum.splits option.splits)

lemma runTurn_withFiller:
  "observable (runTurn (withFiller f g s env) cl userText w) = observable (runTurn env cl userText w)"
proof -
  from turnBody_withFiller [of f g s env]
  have res: "fst (turnBody (withFiller f g s env) t v) = fst (turnBody env t v)"
    and cel: "cells (fst (snd (turnBody (withFiller f g s env) t v)))
                = cells (fst (snd (turnBody env t v)))"
    for t v
    by blast+
  show ?thesis
    using cel [unfolded cells_def]
    by (simp add: observable_def runTurn_def Let_def split_beta res cells_def world_defs
      split: sum.splits)
qed

lemma runTurn_settles:
  assumes started: "trim t \<noteq> []" "\<not> capturedIsProcessing cl"
  shows "case fst (runTurn env cl t w) of
           Resolved \<Rightarrow> status (snd (runTurn env cl t w)) = Listening
         | Rejected e \<Rightarrow>
             status (snd (runTurn env cl t w)) = ErrorStatus
             \<and> error (snd (runTurn env cl t w)) = Some (errMessage e)
             \<and> (\<exists>ev \<in> set (turnEvents env cl t w). nonFillerRejection env ev = Some e)"
proof (cases "sendCopilotMessage env (trim t)")
  case (Inl e)
  show ?thesis
    unfolding turnEvents_def eventsSince_def
    by (simp add: runTurn_send_rejects [OF started Inl] trace_turnStart setter_defs
        nonFillerRejection_def Inl)
next
  case (Inr r)
  show ?thesis
  proof (cases "interruptSpeech env = None \<or> interruptSpeech env = Some (Inr ())")
    case False
    then obtain e where e: "interruptSpeech env = Some (Inl e)"
      by (cases "interruptSpeech env") (metis not_None_eq old.sum.exhaust old.unit.exhaust)+
    show ?thesis
      unfolding turnEvents_def eventsSince_def
      by (simp add: runTurn_interrupt_rejects [OF started Inr e] trace_turnStart setter_defs
          nonFillerRejection_def e)
  next
    case True
    let ?W = "emits (preJoinEvents env (trim t) @ [FillerSettled]) (turnStart env (trim t) w)"
    note run = runTurn_joined [OF started Inr True]
    from turnEvents_joined [OF started Inr True, where w = w]
    have sub: "set (eventsSince ?W (snd (afterFiller env r ?W))) \<subseteq> set (turnEvents env cl t w)"
      by auto
    show ?thesis
    proof (cases "fst (afterFiller env r ?W)")
      case (Inl e)
      from afterFiller_rejects [OF Inl] sub
      have "\<exists>ev \<in> set (turnEvents env cl t w). nonFillerRejection env ev = Some e"
        by blast
      with Inl show ?thesis by (simp add: run setter_defs)
    next
      case (Inr u)
      from afterFiller_resolves [OF Inr] Inr show ?thesis
        by (simp add: run setter_defs)
    qed
  qed
qed

section \<open>The kinds of events of each step\<close>

lemma isReplyPlayback_simps [simp]:
  "isReplyPlayback (CallSpeakAudio site audio) = (site = Reply)"
  "\<not> isReplyPlayback (SetHistoryAppend m)" "\<not> isReplyPlayback SetHistoryEmpty"
  "\<not> isReplyPlayback (SetStatus v)" "\<not> isReplyPlayback (SetIsProcessing b)"
  "\<not> isReplyPlayback (SetError e)" "\<not> isReplyPlayback (SetSigninCard sc)"
  "\<not> isReplyPlayback (SetIsExchanging b)" "\<not> isReplyPlayback (CallFetchTts site t)"
  "\<not> isReplyPlayback (CallSendCopilotMessage t)" "\<not> isReplyPlayback CallInterruptSpeech"
  "\<not> isReplyPlayback (CallAcquireConnectionToken uri)"
  "\<not> isReplyPlayback (CallExchangeConnectionToken p)"
  "\<not> isReplyPlayback (CallSubmitCardAction a)" "\<not> isReplyPlayback FillerSettled"
  by (simp_all add: isReplyPlayback_def)

lemma isShowCard_simps [simp]:
  "isShowCard (SetSigninCard sc) = (sc \<noteq> None)"
  "\<not> isShowCard (SetHistoryAppend m)" "\<not> isShowCard SetHistoryEmpty"
  "\<not> isShowCard (SetStatus v)" "\<not> isShowCard (SetIsProcessing b)"
  "\<not> isShowCard (SetError e)" "\<not> isShowCard (CallSpeakAudio site audio)"
  "\<not> isShowCard (SetIsExchanging b)" "\<not> isShowCard (CallFetchTts site t)"
  "\<not> isShowCard (CallSendCopilotMessage t)" "\<not> isShowCard CallInterruptSpeech"
  "\<not> isShowCard (CallAcquireConnectionToken uri)"
  "\<not> isShowCard (CallExchangeConnectionToken p)"
  "\<not> isShowCard (CallSubmitCardAction a)" "\<not> isShowCard FillerSettled"
  by (simp_all add: isShowCard_def)

lemma isTailEvent_simps [simp]:
  "isTailEvent (SetHistoryAppend m)" "isTailEvent (SetStatus v)" "isTailEvent (SetSigninCard sc)"
  "isTailEvent (CallAcquireConnectionToken uri)" "isTailEvent (CallExchangeConnectionToken p)"
  "isTailEvent (CallFetchTts site t) = (site = Reply)"
  "isTailEvent (CallSpeakAudio site audio) = (site = Reply)"
  "\<not> isTailEvent SetHistoryEmpty" "\<not> isTailEvent (SetIsProcessing b)"
  "\<not> isTailEvent (SetError e)" "\<not> isTailEvent (SetIsExchanging b)"
  "\<not> isTailEvent (CallSendCopilotMessage t)" "\<not> isTailEvent CallInterruptSpeech"
  "\<not> isTailEvent (CallSubmitCardAction a)" "\<not> isTailEvent FillerSettled"
  by (simp_all add: isTailEvent_def)

lemma processBotReply_tail:
  "list_all isTailEvent (eventsSince w (snd (processBotReply env d s w)))"
  by (simp add: eventsSince_def processBotReply_def synthesizeSpeech_def
      Let_def setter_defs split: sum.splits)

lemma processBotReply_no_card:
  "list_all (\<lambda>ev. \<not> isShowCard ev) (eventsSince w (snd (processBotReply env d s w)))"
  by (simp add: eventsSince_def processBotReply_def synthesizeSpeech_def
      Let_def setter_defs split: sum.splits)

lemma processBotReply_signinCard:
  "signinCard (snd (processBotReply env d s w)) = signinCard w"
  by (simp add: processBotReply_def synthesizeSpeech_def Let_def setter_defs split: sum.splits)

lemma trySilentExchange_tail:
  "list_all isTailEvent (eventsSince w (snd (trySilentExchange env c w)))"
  by (simp add: eventsSince_def trySilentExchange_def Let_def
      split: sum.splits option.splits)

lemma showReply_tail:
  "list_all isTailEvent (eventsSince w (snd (showReply env r w)))"
  unfolding eventsSince_def
  using processBotReply_tail
  by (simp add: showReply_def Let_def setter_defs processBotReply_trace
      split: option.splits)

lemma afterFiller_tail:
  "list_all isTailEvent (eventsSince w (snd (afterFiller env r w)))"
  unfolding eventsSince_def
  using processBotReply_tail showReply_tail trySilentExchange_tail
  by (simp add: afterFiller_def Let_def split_beta setter_defs
       processBotReply_trace showReply_trace trySilentExchange_trace
       split: option.splits sum.splits)

lemma afterCardResult_tail:
  "list_all isTailEvent (eventsSince w (snd (afterCardResult env r w)))"
  unfolding eventsSince_def
  using processBotReply_tail
  by (simp add: afterCardResult_def Let_def setter_defs processBotReply_trace
      split: option.splits)

lemma speakFiller_events:
  "list_all (\<lambda>ev. \<exists>t. ev = CallFetchTts Filler t) (speakFillerStart env c)"
  "list_all (\<lambda>ev. \<exists>audio. ev = CallSpeakAudio Filler audio) (speakFillerRest env c)"
  by (simp_all add: speakFillerStart_def speakFillerRest_def split: sum.splits)

lemma filler_events_not:
  "FillerSettled \<notin> set (speakFillerStart env c)" "FillerSettled \<notin> set (speakFillerRest env c)"
  "CallInterruptSpeech \<notin> set (speakFillerStart env c)"
  "CallInterruptSpeech \<notin> set (speakFillerRest env c)"
  "CallAcquireConnectionToken uri \<notin> set (speakFillerStart env c)"
  "CallAcquireConnectionToken uri \<notin> set (speakFillerRest env c)"
  "list_all (\<lambda>ev. \<not> isReplyPlayback ev) (speakFillerStart env c)"
  "list_all (\<lambda>ev. \<not> isReplyPlayback ev) (speakFillerRest env c)"
  "list_all (\<lambda>ev. \<not> isShowCard ev) (speakFillerStart env c)"
  "list_all (\<lambda>ev. \<not> isShowCard ev) (speakFillerRest env c)"
  by (simp_all add: speakFillerStart_def speakFillerRest_def
      split: sum.splits)

lemma preJoinEvents_not:
  "FillerSettled \<notin> set (preJoinEvents env c)"
  "CallAcquireConnectionToken uri \<notin> set (preJoinEvents env c)"
  "list_all (\<lambda>ev. \<not> isReplyPlayback ev) (preJoinEvents env c)"
  "list_all (\<lambda>ev. \<not> isShowCard ev) (preJoinEvents env c)"
  by (simp_all add: preJoinEvents_def filler_events_not split: option.splits)


lemma turnStartEvents_not:
  "FillerSettled \<notin> set (turnStartEvents env c)"
  "CallInterruptSpeech \<notin> set (turnStartEvents env c)"
  "CallAcquireConnectionToken uri \<notin> set (turnStartEvents env c)"
  "list_all (\<lambda>ev. \<not> isReplyPlayback ev) (turnStartEvents env c)"
  "list_all (\<lambda>ev. \<not> isShowCard ev) (turnStartEvents env c)"
  by (simp_all add: turnStartEvents_def)

lemma tail_event_not:
  assumes "list_all isTailEvent evs"
  shows "FillerSettled \<notin> set evs" and "CallInterruptSpeech \<notin> set evs"
    and "SetHistoryEmpty \<notin> set evs"
  using assms by (auto simp add: list_all_iff)

section \<open>The events of a turn on each of its paths\<close>

lemma turnEvents_idle:
  "trim t = [] \<or> capturedIsProcessing cl \<Longrightarrow> turnEvents env cl t w = []"
  by (auto simp add: turnEvents_def runTurn_def)

lemma turnEvents_send_rejects:
  assumes "trim t \<noteq> []" and "\<not> capturedIsProcessing cl"
    and "sendCopilotMessage env (trim t) = Inl e"
  shows "turnEvents env cl t w =
     turnStartEvents env (trim t) @ speakFillerStart env (trim t)
     @ [CallSendCopilotMessage (trim t)]
     @ (if fillerResume env = DuringBackendWait then speakFillerRest env (trim t) else [])
     @ [SetStatus ErrorStatus, SetError (Some (errMessage e)), SetIsProcessing False]
     @ (if fillerResume env = DuringBackendWait then [] else speakFillerRest env (trim t))"
  unfolding turnEvents_def eventsSince_def
  by (simp add: runTurn_send_rejects [OF assms] trace_turnStart setter_defs)

lemma turnEvents_interrupt_rejects:
  assumes "trim t \<noteq> []" and "\<not> capturedIsProcessing cl"
    and "sendCopilotMessage env (trim t) = Inr r" and "interruptSpeech env = Some (Inl e)"
  shows "turnEvents env cl t w =
     turnStartEvents env (trim t) @ speakFillerStart env (trim t)
     @ [CallSendCopilotMessage (trim t)]
     @ (if fillerResume env = DuringBackendWait then speakFillerRest env (trim t) else [])
     @ [CallInterruptSpeech]
     @ (if fillerResume env = DuringInterruptWait then speakFillerRest env (trim t) else [])
     @ [SetStatus ErrorStatus, SetError (Some (errMessage e)), SetIsProcessing False]
     @ (if fillerResume env = Afterwards then speakFillerRest env (trim t) else [])"
  unfolding turnEvents_def eventsSince_def
  by (simp add: runTurn_interrupt_rejects [OF assms] trace_turnStart setter_defs)

lemmas eval_defs = trim_def ascii_def isWhiteSpace_def truthy_def orElse_def optTrim_def

lemma freshWorld_fields:
  "history freshWorld = []" "status freshWorld = Idle" "isProcessing freshWorld = False"
  "error freshWorld = None" "signinCard freshWorld = None" "isExchanging freshWorld = False"
  "trace freshWorld = []"
  by (simp_all add: freshWorld_def)

lemma trim_hello: "trim (ascii ''hello'') = ascii ''hello''"
  by (simp add: eval_defs)

lemma closureOf_fields [simp]:
  "capturedIsProcessing (closureOf w) = isProcessing w"
  "capturedSigninCard (closureOf w) = signinCard w"
  by (simp_all add: closureOf_def)

lemma hello_started:
  "trim (ascii ''hello'') \<noteq> [] \<and> \<not> capturedIsProcessing (closureOf freshWorld)"
  by (simp add: eval_defs freshWorld_def)

text \<open>The turn that speaks a plain reply, in full.\<close>

lemma runTurn_plain_reply:
  assumes "trim userText \<noteq> []" and "\<not> capturedIsProcessing cl"
    and "sendCopilotMessage env (trim userText) = Inr response"
    and "trim (botReply response) \<noteq> []" and "respSigninCard response = None"
    and "interruptSpeech env = None \<or> interruptSpeech env = Some (Inr ())"
    and "ttsResult env Reply (orElse (optTrim (speechText response)) (trim (botReply response)))
           = Inr audio"
    and "speakAudio env Reply audio = Inr ()"
  shows "observable (runTurn env cl userText w) =
     (Resolved,
      history w @ [message env User (trim userText),
                   message env Assistant (trim (botReply response))],
      Listening, False, None, None, isExchanging w)"
  using assms(4,5,7,8)
  by (simp add: observable_def cells_def runTurn_joined [OF assms(1,2,3,6)] afterFiller_plain
      showReply_def processBotReply_def synthesizeSpeech_def Let_def setter_defs turnStart_def)

lemma plainEnv_hello:
  "observable (runTurn plainEnv (closureOf freshWorld) (ascii ''hello'') freshWorld) =
     (Resolved,
      [message plainEnv User (ascii ''hello''), message plainEnv Assistant (ascii ''Hi there'')],
      Listening, False, None, None, False)"
proof -
  have send: "sendCopilotMessage plainEnv (trim (ascii ''hello'')) = Inr plainReply"
    by (simp add: plainEnv_def)
  have reply: "trim (botReply plainReply) = ascii ''Hi there''"
    by (simp add: plainReply_def eval_defs)
  then have nonempty: "trim (botReply plainReply) \<noteq> []"
    by (simp add: ascii_def)
  have nocard: "respSigninCard plainReply = None"
    by (simp add: plainReply_def)
  have interrupt: "interruptSpeech plainEnv = None \<or> interruptSpeech plainEnv = Some (Inr ())"
    by (simp add: plainEnv_def)
  have tts: "ttsResult plainEnv Reply
       (orElse (optTrim (speechText plainReply)) (trim (botReply plainReply)))
     = Inr (ascii ''UklGRg'')"
    by (simp add: ttsResult_def plainEnv_def okTts_def ascii_def)
  have play: "speakAudio plainEnv Reply (ascii ''UklGRg'') = Inr ()"
    by (simp add: plainEnv_def)
  from runTurn_plain_reply [OF hello_started [THEN conjunct1] hello_started [THEN conjunct2]
      send nonempty nocard interrupt tts play]
  show ?thesis by (simp add: trim_hello reply freshWorld_fields)
qed

section \<open>A turn that speaks a plain reply\<close>

text \<open>
  C2 (as amended). When no turn is in flight (the \<open>isProcessing\<close> that the guard reads,
  the one its callback carries, is unset), the input's trim is not empty, the backend
  resolves with a reply whose text is not empty after trimming and with no SigninCard, the
  interrupt (if its adapter is supplied) resolves, and the synthesis and the playback of the
  reply succeed, \<open>runTurn\<close> resolves, the history is extended by exactly two messages (a
  user message with the trimmed input, then an assistant message with the trimmed reply)
  and the final status is \<open>listening\<close>.
\<close>

theorem runTurn_reply_spoken:
  assumes "trim userText \<noteq> []" and "\<not> capturedIsProcessing cl"
    and "sendCopilotMessage env (trim userText) = Inr response"
    and "trim (botReply response) \<noteq> []" and "respSigninCard response = None"
    and "interruptSpeech env = None \<or> interruptSpeech env = Some (Inr ())"
    and "ttsResult env Reply (orElse (optTrim (speechText response)) (trim (botReply response)))
           = Inr audio"
    and "speakAudio env Reply audio = Inr ()"
  shows "fst (runTurn env cl userText w) = Resolved
     \<and> history (snd (runTurn env cl userText w))
         = history w @ [message env User (trim userText),
                        message env Assistant (trim (botReply response))]
     \<and> status (snd (runTurn env cl userText w)) = Listening"
  using runTurn_plain_reply [OF assms]
  by (simp add: observable_def cells_def)

theorem runTurn_reply_spoken_witness:
  "trim (ascii ''hello'') \<noteq> [] \<and> \<not> capturedIsProcessing (closureOf freshWorld)
   \<and> sendCopilotMessage plainEnv (trim (ascii ''hello'')) = Inr plainReply
   \<and> trim (botReply plainReply) = ascii ''Hi there'' \<and> respSigninCard plainReply = None
   \<and> fst (runTurn plainEnv (closureOf freshWorld) (ascii ''hello'') freshWorld) = Resolved
   \<and> history (snd (runTurn plainEnv (closureOf freshWorld) (ascii ''hello'') freshWorld))
       = [message plainEnv User (ascii ''hello''), message plainEnv Assistant (ascii ''Hi there'')]
   \<and> status (snd (runTurn plainEnv (closureOf freshWorld) (ascii ''hello'') freshWorld)) = Listening"
proof -
  have send: "sendCopilotMessage plainEnv (trim (ascii ''hello'')) = Inr plainReply"
    by (simp add: plainEnv_def)
  have reply: "trim (botReply plainReply) = ascii ''Hi there''"
    by (simp add: plainReply_def eval_defs)
  then have nonempty: "trim (botReply plainReply) \<noteq> []"
    by (simp add: ascii_def)
  have nocard: "respSigninCard plainReply = None"
    by (simp add: plainReply_def)
  have interrupt: "interruptSpeech plainEnv = None \<or> interruptSpeech plainEnv = Some (Inr ())"
    by (simp add: plainEnv_def)
  have tts: "ttsResult plainEnv Reply
       (orElse (optTrim (speechText plainReply)) (trim (botReply plainReply)))
     = Inr (ascii ''UklGRg'')"
    by (simp add: ttsResult_def plainEnv_def okTts_def ascii_def)
  have play: "speakAudio plainEnv Reply (ascii ''UklGRg'') = Inr ()"
    by (simp add: plainEnv_def)
  from runTurn_reply_spoken [OF hello_started [THEN conjunct1] hello_started [THEN conjunct2]
      send nonempty nocard interrupt tts play]
    hello_started send reply nocard
  show ?thesis by (simp add: trim_hello freshWorld_fields)
qed

text \<open>Evaluating a whole turn on concrete collaborators.\<close>

lemmas run_defs = runTurn_def turnStart_def turnBody_def interruptStep_def resumeFillerAt_def
  afterFiller_def showReply_def processBotReply_def synthesizeSpeech_def ttsResult_def
  trySilentExchange_def catchIgnore_def

theorem runTurn_blank_reply_counterexample:
  "trim (ascii ''hello'') \<noteq> [] \<and> \<not> capturedIsProcessing (closureOf freshWorld)
   \<and> sendCopilotMessage blankReplyEnv (trim (ascii ''hello'')) = Inr blankReply
   \<and> botReply blankReply \<noteq> [] \<and> respSigninCard blankReply = None
   \<and> interruptSpeech blankReplyEnv = Some (Inr ())
   \<and> (\<forall>t. ttsResult blankReplyEnv Reply t = Inr (ascii ''UklGRg''))
   \<and> (\<forall>audio. speakAudio blankReplyEnv Reply audio = Inr ())
   \<and> fst (runTurn blankReplyEnv (closureOf freshWorld) (ascii ''hello'') freshWorld) = Resolved
   \<and> history (snd (runTurn blankReplyEnv (closureOf freshWorld) (ascii ''hello'') freshWorld))
       = [message blankReplyEnv User (ascii ''hello'')]
   \<and> status (snd (runTurn blankReplyEnv (closureOf freshWorld) (ascii ''hello'') freshWorld)) = Listening"
proof -
  have send: "sendCopilotMessage blankReplyEnv (trim (ascii ''hello'')) = Inr blankReply"
    by (simp add: blankReplyEnv_def)
  have interrupt: "interruptSpeech blankReplyEnv = Some (Inr ())"
    by (simp add: blankReplyEnv_def plainEnv_def)
  have blank: "trim (botReply blankReply) = []" and given: "botReply blankReply \<noteq> []"
    and nocard: "respSigninCard blankReply = None"
    by (simp_all add: blankReply_def eval_defs)
  have tts: "\<forall>t. ttsResult blankReplyEnv Reply t = Inr (ascii ''UklGRg'')"
    by (simp add: ttsResult_def blankReplyEnv_def plainEnv_def okTts_def ascii_def)
  have play: "\<forall>audio. speakAudio blankReplyEnv Reply audio = Inr ()"
    by (simp add: blankReplyEnv_def plainEnv_def)
  have run: "fst (runTurn blankReplyEnv (closureOf freshWorld) (ascii ''hello'') freshWorld) = Resolved
    \<and> history (snd (runTurn blankReplyEnv (closureOf freshWorld) (ascii ''hello'') freshWorld))
       = [message blankReplyEnv User (ascii ''hello'')]
    \<and> status (snd (runTurn blankReplyEnv (closureOf freshWorld) (ascii ''hello'') freshWorld)) = Listening"
    using blank nocard
    by (simp add: runTurn_joined [OF hello_started [THEN conjunct1]
          hello_started [THEN conjunct2] send disjI2 [OF interrupt]]
        afterFiller_plain showReply_def Let_def setter_defs turnStart_def trim_hello
        freshWorld_fields)
  from hello_started send given nocard interrupt tts play run show ?thesis by blast
qed

section \<open>Blank input\<close>

text \<open>
  C10. For an input text whose trim is empty, \<open>runTurn\<close> is a no-op whatever the state
  and whichever callback is called, also when no turn is in progress: it resolves at once, the state (the re-entrancy flag
  included) is as before, and the log shows no state write and no adapter request.
\<close>

theorem runTurn_blank_noop:
  "trim userText = [] \<Longrightarrow> runTurn env cl userText w = (Resolved, w)"
  by (simp add: runTurn_def)

theorem runTurn_blank_noop_witness:
  "trim [0x20, 0x9, 0xA] = [] \<and> \<not> isProcessing freshWorld
   \<and> \<not> capturedIsProcessing (closureOf freshWorld)
   \<and> runTurn plainEnv (closureOf freshWorld) [0x20, 0x9, 0xA] freshWorld
       = (Resolved, freshWorld)"
proof -
  have blank: "trim [0x20, 0x9, 0xA] = []"
    by (simp add: trim_def isWhiteSpace_def)
  have idle: "\<not> isProcessing freshWorld"
    by (simp add: freshWorld_def)
  from runTurn_blank_noop [OF blank, of plainEnv "closureOf freshWorld" freshWorld] blank idle
  show ?thesis by simp
qed

section \<open>Filler failures\<close>

text \<open>
  C3 (as amended). Whatever the filler branch does, the turn settles the same way and
  leaves the same state cells: replacing the answers to the filler's speech synthesis and
  playback, and the moment it resumes, by any others changes neither the outcome of
  \<open>runTurn\<close> nor any cell. A turn that starts ends resolved with status \<open>listening\<close>,
  or rejected with status \<open>error\<close> and the error's message recorded; in that case the
  error is the rejection of a request of this turn outside the filler branch: the backend
  query, the interrupt, the silent credential acquisition, the token exchange, or the
  synthesis or playback of the final reply.
\<close>

theorem filler_failure_isolated:
  "observable (runTurn (withFiller f g s env) cl userText w) = observable (runTurn env cl userText w)
   \<and> (trim userText \<noteq> [] \<and> \<not> capturedIsProcessing cl \<longrightarrow>
        (case fst (runTurn env cl userText w) of
           Resolved \<Rightarrow> status (snd (runTurn env cl userText w)) = Listening
         | Rejected e \<Rightarrow>
             status (snd (runTurn env cl userText w)) = ErrorStatus
             \<and> error (snd (runTurn env cl userText w)) = Some (errMessage e)
             \<and> (\<exists>ev \<in> set (turnEvents env cl userText w). nonFillerRejection env ev = Some e)))"
  using runTurn_withFiller [of f g s env cl userText w] runTurn_settles [of userText cl env w]
  by blast

theorem filler_failure_isolated_witness:
  "trim (ascii ''hello'') \<noteq> [] \<and> \<not> capturedIsProcessing (closureOf freshWorld)
   \<and> fst (runTurn plainEnv (closureOf freshWorld) (ascii ''hello'') freshWorld) = Resolved
   \<and> observable (runTurn (fillerDown plainEnv) (closureOf freshWorld) (ascii ''hello'') freshWorld)
       = observable (runTurn plainEnv (closureOf freshWorld) (ascii ''hello'') freshWorld)
   \<and> status (snd (runTurn plainEnv (closureOf freshWorld) (ascii ''hello'') freshWorld)) = Listening"
proof -
  from filler_failure_isolated [of "\<lambda>t. Inl (Error (ascii ''tts down''))"
      "\<lambda>audio. Inl (Error (ascii ''no avatar''))" Afterwards plainEnv
      "closureOf freshWorld" "ascii ''hello''" freshWorld]
    hello_started plainEnv_hello
  show ?thesis by (simp add: fillerDown_def observable_def cells_def)
qed

theorem interrupt_failure_counterexample:
  "trim (ascii ''hello'') \<noteq> [] \<and> \<not> capturedIsProcessing (closureOf freshWorld)
   \<and> (\<forall>t. sendCopilotMessage interruptFailEnv t = Inr plainReply)
   \<and> (\<forall>t. ttsResult interruptFailEnv Reply t = Inr (ascii ''UklGRg''))
   \<and> (\<forall>audio. speakAudio interruptFailEnv Reply audio = Inr ())
   \<and> fst (runTurn interruptFailEnv (closureOf freshWorld) (ascii ''hello'') freshWorld)
       = Rejected (Error (ascii ''interrupt failed''))
   \<and> status (snd (runTurn interruptFailEnv (closureOf freshWorld) (ascii ''hello'') freshWorld)) = ErrorStatus
   \<and> error (snd (runTurn interruptFailEnv (closureOf freshWorld) (ascii ''hello'') freshWorld))
       = Some (ascii ''interrupt failed'')"
proof -
  have send: "\<forall>t. sendCopilotMessage interruptFailEnv t = Inr plainReply"
    and tts: "\<forall>t. ttsResult interruptFailEnv Reply t = Inr (ascii ''UklGRg'')"
    and play: "\<forall>audio. speakAudio interruptFailEnv Reply audio = Inr ()"
    and interrupt: "interruptSpeech interruptFailEnv = Some (Inl (Error (ascii ''interrupt failed'')))"
    by (simp_all add: ttsResult_def interruptFailEnv_def plainEnv_def okTts_def ascii_def)
  from send have send1: "sendCopilotMessage interruptFailEnv (trim (ascii ''hello'')) = Inr plainReply"
    by simp
  have "fst (runTurn interruptFailEnv (closureOf freshWorld) (ascii ''hello'') freshWorld)
       = Rejected (Error (ascii ''interrupt failed''))
   \<and> status (snd (runTurn interruptFailEnv (closureOf freshWorld) (ascii ''hello'') freshWorld)) = ErrorStatus
   \<and> error (snd (runTurn interruptFailEnv (closureOf freshWorld) (ascii ''hello'') freshWorld))
       = Some (ascii ''interrupt failed'')"
    by (simp add: runTurn_interrupt_rejects [OF hello_started [THEN conjunct1]
          hello_started [THEN conjunct2] send1 interrupt] setter_defs)
  with hello_started send tts play show ?thesis by blast
qed

section \<open>Playback of the reply comes after the interrupt and the filler\<close>

lemma takeWhile_before:
  assumes "e \<notin> set xs"
  shows "takeWhile (\<lambda>ev. ev \<noteq> e) (xs @ e # ys) = xs"
  using assms by (induction xs) auto





section \<open>Silent consent\<close>

lemma trySilentExchange_acquires:
  assumes "tokenExchangeResourceUri c = Some uri" and "uri \<noteq> []"
    and "truthy (tokenExchangeResourceId c)" and "truthy (connectionName c)"
    and "acquireConnectionToken env \<noteq> None" and "exchangeConnectionToken env \<noteq> None"
  shows "\<exists>more. eventsSince w (snd (trySilentExchange env c w))
                 = CallAcquireConnectionToken uri # more"
  using assms
  by (auto simp add: eventsSince_def trySilentExchange_def truthy_def Let_def
      split: option.splits sum.splits)

lemma afterFiller_silent_events:
  assumes "respSigninCard r = Some c" and "truthy (tokenExchangeResourceUri c)"
  shows "\<exists>more. eventsSince w (snd (afterFiller env r w))
     = SetStatus Thinking
       # eventsSince (setStatus Thinking w) (snd (trySilentExchange env c (setStatus Thinking w)))
       @ more"
proof -
  let ?v = "setStatus Thinking w"
  let ?x = "trySilentExchange env c ?v"
  have vx: "eventsSince w (snd ?x) = [SetStatus Thinking] @ eventsSince ?v (snd ?x)"
    by (rule eventsSince_via [OF trace_setStatus trySilentExchange_trace])
  have wx: "trace (snd ?x) = trace w @ eventsSince w (snd ?x)"
    using trySilentExchange_trace [of env c ?v] by (simp add: vx trace_setStatus)
  have via: "eventsSince w w' = eventsSince w (snd ?x) @ eventsSince (snd ?x) w'"
    if "trace w' = trace (snd ?x) @ eventsSince (snd ?x) w'" for w'
    by (rule eventsSince_via [OF wx that])
  show ?thesis
  proof (cases "fst ?x")
    case (Inl e)
    with assms vx show ?thesis by (simp add: afterFiller_silent)
  next
    case (Inr v)
    show ?thesis
    proof (cases v)
      case None
      with Inr assms vx via [OF showReply_trace] show ?thesis
        by (simp add: afterFiller_silent)
    next
      case (Some x)
      have "trace (setStatus Listening (snd ?x))
          = trace (snd ?x) @ eventsSince (snd ?x) (setStatus Listening (snd ?x))"
        by (simp add: eventsSince_def setter_defs)
      with Some Inr assms vx via [OF processBotReply_trace] via [OF this] show ?thesis
        by (simp add: afterFiller_silent)
    qed
  qed
qed

text \<open>The run that reaches the join: the acquisition is requested, and no card is shown before.\<close>

lemma silent_acquisition_joined:
  assumes "trim userText \<noteq> []" and "\<not> capturedIsProcessing cl"
    and "sendCopilotMessage env (trim userText) = Inr response"
    and "interruptSpeech env = None \<or> interruptSpeech env = Some (Inr ())"
    and "respSigninCard response = Some c"
    and "tokenExchangeResourceUri c = Some uri" and "uri \<noteq> []"
    and "truthy (tokenExchangeResourceId c)" and "truthy (connectionName c)"
    and "acquireConnectionToken env \<noteq> None" and "exchangeConnectionToken env \<noteq> None"
  shows "CallAcquireConnectionToken uri \<in> set (turnEvents env cl userText w)
     \<and> list_all (\<lambda>ev. \<not> isShowCard ev)
         (takeWhile (\<lambda>ev. ev \<noteq> CallAcquireConnectionToken uri) (turnEvents env cl userText w))"
proof -
  let ?t = "trim userText"
  let ?W = "emits (preJoinEvents env ?t @ [FillerSettled]) (turnStart env ?t w)"
  let ?A = "turnStartEvents env ?t @ preJoinEvents env ?t @ [FillerSettled, SetStatus Thinking]"
  from assms(6,7) have uri: "truthy (tokenExchangeResourceUri c)"
    by (simp add: truthy_def)
  from turnEvents_joined [OF assms(1-4)] obtain post where
    shape: "turnEvents env cl userText w = turnStartEvents env ?t @ preJoinEvents env ?t
       @ [FillerSettled] @ eventsSince ?W (snd (afterFiller env response ?W)) @ post"
    by blast
  from afterFiller_silent_events [OF assms(5) uri]
    trySilentExchange_acquires [OF assms(6-11)]
  obtain more where "eventsSince ?W (snd (afterFiller env response ?W))
      = SetStatus Thinking # CallAcquireConnectionToken uri # more"
    by (metis append_Cons)
  with shape have split: "turnEvents env cl userText w
      = ?A @ CallAcquireConnectionToken uri # (more @ post)"
    by simp
  have notin: "CallAcquireConnectionToken uri \<notin> set ?A"
    by (simp add: turnStartEvents_not preJoinEvents_not)
  then have "takeWhile (\<lambda>ev. ev \<noteq> CallAcquireConnectionToken uri) (turnEvents env cl userText w) = ?A"
    unfolding split by (rule takeWhile_before)
  moreover have "list_all (\<lambda>ev. \<not> isShowCard ev) ?A"
    by (simp add: turnStartEvents_not preJoinEvents_not)
  ultimately show ?thesis using split by simp
qed

text \<open>The run whose interrupt rejects: no acquisition, no card, and the turn fails.\<close>

lemma silent_acquisition_interrupted:
  assumes "trim userText \<noteq> []" and "\<not> capturedIsProcessing cl"
    and "sendCopilotMessage env (trim userText) = Inr response"
    and "interruptSpeech env = Some (Inl e)"
  shows "fst (runTurn env cl userText w) = Rejected e"
    and "signinCard (snd (runTurn env cl userText w)) = None"
    and "CallAcquireConnectionToken uri \<notin> set (turnEvents env cl userText w)"
    and "list_all (\<lambda>ev. \<not> isShowCard ev) (turnEvents env cl userText w)"
proof -
  show "fst (runTurn env cl userText w) = Rejected e"
    by (simp add: runTurn_interrupt_rejects [OF assms])
  show "signinCard (snd (runTurn env cl userText w)) = None"
    by (simp add: runTurn_interrupt_rejects [OF assms] setter_defs turnStart_def)
  have filler: "CallAcquireConnectionToken uri \<notin> set (speakFillerStart env (trim userText))"
    "CallAcquireConnectionToken uri \<notin> set (speakFillerRest env (trim userText))"
    "list_all (\<lambda>ev. \<not> isShowCard ev) (speakFillerStart env (trim userText))"
    "list_all (\<lambda>ev. \<not> isShowCard ev) (speakFillerRest env (trim userText))"
    by (simp_all add: filler_events_not)
  show "CallAcquireConnectionToken uri \<notin> set (turnEvents env cl userText w)"
    using filler by (simp add: turnEvents_interrupt_rejects [OF assms] turnStartEvents_not)
  show "list_all (\<lambda>ev. \<not> isShowCard ev) (turnEvents env cl userText w)"
    using filler by (simp add: turnEvents_interrupt_rejects [OF assms] turnStartEvents_not)
qed

text \<open>
  C6 (as amended). In every run of \<open>runTurn\<close> in which the backend reply carries a
  SigninCard (so the turn has started and the backend query has resolved) with a non-empty
  \<open>tokenExchangeResourceUri\<close>, a non-empty \<open>tokenExchangeResourceId\<close> and a non-empty
  \<open>connectionName\<close>, while both the \<open>acquireConnectionToken\<close> and the
  \<open>exchangeConnectionToken\<close> adapters are supplied, no card is made pending before
  \<open>acquireConnectionToken\<close> has been called with that URI. The orchestrator makes that call
  unless the interrupt request rejects first: then the turn rejects with the interrupt's
  error, with no acquisition call, no card made pending and no pending card at the end.
\<close>

theorem silent_acquisition_first:
  assumes "trim userText \<noteq> []" and "\<not> capturedIsProcessing cl"
    and "sendCopilotMessage env (trim userText) = Inr response"
    and "respSigninCard response = Some c"
    and "tokenExchangeResourceUri c = Some uri" and "uri \<noteq> []"
    and "truthy (tokenExchangeResourceId c)" and "truthy (connectionName c)"
    and "acquireConnectionToken env \<noteq> None" and "exchangeConnectionToken env \<noteq> None"
  shows "list_all (\<lambda>ev. \<not> isShowCard ev)
           (takeWhile (\<lambda>ev. ev \<noteq> CallAcquireConnectionToken uri)
              (turnEvents env cl userText w))
     \<and> (case interruptSpeech env of
          None \<Rightarrow> CallAcquireConnectionToken uri \<in> set (turnEvents env cl userText w)
        | Some (Inr u) \<Rightarrow> CallAcquireConnectionToken uri \<in> set (turnEvents env cl userText w)
        | Some (Inl e) \<Rightarrow>
            fst (runTurn env cl userText w) = Rejected e
            \<and> CallAcquireConnectionToken uri \<notin> set (turnEvents env cl userText w)
            \<and> list_all (\<lambda>ev. \<not> isShowCard ev) (turnEvents env cl userText w)
            \<and> signinCard (snd (runTurn env cl userText w)) = None)"
proof (cases "interruptSpeech env = None \<or> interruptSpeech env = Some (Inr ())")
  case True
  from silent_acquisition_joined [OF assms(1-3) True assms(4-10)] True
  show ?thesis by auto
next
  case False
  then obtain e where e: "interruptSpeech env = Some (Inl e)"
    by (cases "interruptSpeech env") (metis not_None_eq old.sum.exhaust old.unit.exhaust)+
  note stop = silent_acquisition_interrupted [OF assms(1-3) e, where w = w]
  from stop(3) [where uri = uri]
  have whole: "takeWhile (\<lambda>ev. ev \<noteq> CallAcquireConnectionToken uri)
        (turnEvents env cl userText w) = turnEvents env cl userText w"
    by (auto simp add: takeWhile_eq_all_conv)
  have "list_all (\<lambda>ev. \<not> isShowCard ev)
      (takeWhile (\<lambda>ev. ev \<noteq> CallAcquireConnectionToken uri) (turnEvents env cl userText w))"
    unfolding whole by (rule stop(4))
  with stop e show ?thesis by simp
qed

lemma trySilentExchange_succeeds:
  assumes "tokenExchangeResourceUri c = Some uri" and "uri \<noteq> []"
    and "tokenExchangeResourceId c = Some rid" and "rid \<noteq> []"
    and "connectionName c = Some cname" and "cname \<noteq> []"
    and "acquireConnectionToken env = Some acquire"
    and "acquire uri = Inr (Some connectionToken)" and "connectionToken \<noteq> []"
    and "exchangeConnectionToken env = Some exchange"
    and "exchange \<lparr>paramConnectionToken = connectionToken, paramConnectionName = cname,
                   paramTokenExchangeResourceId = rid\<rparr> = Inr result"
  shows "trySilentExchange env c w =
     (Inr (Some result),
      emits [CallAcquireConnectionToken uri,
             CallExchangeConnectionToken
               \<lparr>paramConnectionToken = connectionToken, paramConnectionName = cname,
                paramTokenExchangeResourceId = rid\<rparr>] w)"
  using assms by (simp add: trySilentExchange_def Let_def emit_def emits_def)

text \<open>
  C4 (as amended). In every run of \<open>runTurn\<close> that gets as far (the guard passes: a
  non-empty trimmed input and no turn in flight as the callback carries the flag; the
  backend branch resolves and the interrupt does not reject)
  where the backend reply carries a SigninCard with \<open>tokenExchangeResourceUri\<close>, the silent
  credential acquisition succeeds and the exchange call is made and returns a reply whose
  text is not empty after trimming, the SigninCard never becomes pending: no write of the
  turn makes a card pending and the pending-card field is null at the end; and the history
  is the old history, the user message, and the trimmed exchanged reply as the assistant
  message.
\<close>

theorem silent_exchange_hides_card:
  assumes "trim userText \<noteq> []" and "\<not> capturedIsProcessing cl"
    and "sendCopilotMessage env (trim userText) = Inr response"
    and "interruptSpeech env = None \<or> interruptSpeech env = Some (Inr ())"
    and "respSigninCard response = Some c"
    and "tokenExchangeResourceUri c = Some uri" and "uri \<noteq> []"
    and "tokenExchangeResourceId c = Some rid" and "rid \<noteq> []"
    and "connectionName c = Some cname" and "cname \<noteq> []"
    and "acquireConnectionToken env = Some acquire"
    and "acquire uri = Inr (Some connectionToken)" and "connectionToken \<noteq> []"
    and "exchangeConnectionToken env = Some exchange"
    and "exchange \<lparr>paramConnectionToken = connectionToken, paramConnectionName = cname,
                   paramTokenExchangeResourceId = rid\<rparr> = Inr result"
    and "trim (botReply result) \<noteq> []"
  shows "list_all (\<lambda>ev. \<not> isShowCard ev) (turnEvents env cl userText w)
     \<and> signinCard (snd (runTurn env cl userText w)) = None
     \<and> history (snd (runTurn env cl userText w))
         = history w @ [message env User (trim userText),
                        message env Assistant (trim (botReply result))]"
proof -
  let ?t = "trim userText"
  let ?W = "emits (preJoinEvents env ?t @ [FillerSettled]) (turnStart env ?t w)"
  let ?p = "\<lparr>paramConnectionToken = connectionToken, paramConnectionName = cname,
            paramTokenExchangeResourceId = rid\<rparr>"
  let ?X = "emits [CallAcquireConnectionToken uri, CallExchangeConnectionToken ?p]
              (setStatus Thinking ?W)"
  let ?P = "processBotReply env (trim (botReply result)) (optTrim (speechText result)) ?X"
  from assms(6,7) have uri: "truthy (tokenExchangeResourceUri c)"
    by (simp add: truthy_def)
  have after: "afterFiller env response ?W = ?P"
    using assms(17)
    by (simp add: afterFiller_silent [OF assms(5) uri] trySilentExchange_succeeds [OF assms(6-16)])
  have "trace ?X = trace ?W @ [SetStatus Thinking, CallAcquireConnectionToken uri,
      CallExchangeConnectionToken ?p]"
    by (simp add: setter_defs)
  from eventsSince_via [OF this processBotReply_trace]
  have tail: "eventsSince ?W (snd ?P) = [SetStatus Thinking, CallAcquireConnectionToken uri,
      CallExchangeConnectionToken ?p] @ eventsSince ?X (snd ?P)" .
  from turnEvents_joined [OF assms(1-4)] obtain post where
    shape: "turnEvents env cl userText w = turnStartEvents env ?t @ preJoinEvents env ?t
       @ [FillerSettled] @ eventsSince ?W (snd (afterFiller env response ?W)) @ post"
    and post: "set post \<subseteq> {SetStatus ErrorStatus, SetIsProcessing False} \<union> range SetError"
    by blast
  from post have "list_all (\<lambda>ev. \<not> isShowCard ev) post"
    by (auto simp add: list_all_iff)
  then have hidden: "list_all (\<lambda>ev. \<not> isShowCard ev) (turnEvents env cl userText w)"
    by (simp add: shape after tail turnStartEvents_not preJoinEvents_not
        processBotReply_no_card)
  have card: "signinCard (snd ?P) = None"
    by (simp add: processBotReply_signinCard setter_defs turnStart_def Let_def)
  have hist: "history (snd ?P) = history w @ [message env User ?t,
      message env Assistant (trim (botReply result))]"
    by (simp add: processBotReply_history setter_defs turnStart_def Let_def)
  from card hist have "signinCard (snd (runTurn env cl userText w)) = None
     \<and> history (snd (runTurn env cl userText w))
         = history w @ [message env User ?t, message env Assistant (trim (botReply result))]"
    by (simp add: runTurn_joined [OF assms(1-4)] after setter_defs split: sum.splits)
  with hidden show ?thesis by simp
qed

section \<open>Concrete runs\<close>

lemma plainEnv_facts:
  "sendCopilotMessage plainEnv t = Inr plainReply"
  "interruptSpeech plainEnv = Some (Inr ())"
  "ttsResult plainEnv site t = Inr (ascii ''UklGRg'')"
  "speakAudio plainEnv site audio = Inr ()"
  by (simp_all add: plainEnv_def ttsResult_def okTts_def ascii_def)

lemma plainReply_facts:
  "trim (botReply plainReply) = ascii ''Hi there''" "respSigninCard plainReply = None"
  "speechText plainReply = None"
  by (simp_all add: plainReply_def eval_defs)

lemma ascii_nonempty [simp]: "ascii (c # cs) \<noteq> []"
  by (simp add: ascii_def)

text \<open>The events of the turn that speaks a plain reply.\<close>

lemma turnEvents_plain_reply:
  assumes "trim userText \<noteq> []" and "\<not> capturedIsProcessing cl"
    and "sendCopilotMessage env (trim userText) = Inr response"
    and "trim (botReply response) \<noteq> []" and "respSigninCard response = None"
    and "interruptSpeech env = None \<or> interruptSpeech env = Some (Inr ())"
    and "ttsResult env Reply (orElse (optTrim (speechText response)) (trim (botReply response)))
           = Inr audio"
    and "speakAudio env Reply audio = Inr ()"
  shows "turnEvents env cl userText w =
     turnStartEvents env (trim userText) @ preJoinEvents env (trim userText)
     @ [FillerSettled, SetStatus Thinking,
        SetHistoryAppend (message env Assistant (trim (botReply response))),
        SetStatus Speaking,
        CallFetchTts Reply (orElse (optTrim (speechText response)) (trim (botReply response))),
        CallSpeakAudio Reply audio, SetStatus Listening, SetIsProcessing False]"
  unfolding turnEvents_def eventsSince_def
  using assms(4,5,7,8)
  by (simp add: runTurn_joined [OF assms(1,2,3,6)] afterFiller_plain showReply_def
      processBotReply_def synthesizeSpeech_def Let_def setter_defs trace_turnStart)



lemma consentCard_facts:
  "tokenExchangeResourceUri consentCard = Some (ascii ''api://files/.default'')"
  "tokenExchangeResourceId consentCard = Some (ascii ''res-1'')"
  "connectionName consentCard = Some (ascii ''SharePoint'')"
  "truthy (tokenExchangeResourceUri consentCard)"
  "truthy (tokenExchangeResourceId consentCard)"
  "truthy (connectionName consentCard)"
  "trim (cardMessage consentCard) = ascii ''Sign in to continue''"
  by (simp_all add: consentCard_def truthy_def eval_defs)

lemma cardReply_facts:
  "respSigninCard cardReply = Some consentCard" "botReply cardReply = []"
  "trim (botReply cardReply) = []"
  by (simp_all add: cardReply_def eval_defs)

lemma silentEnv_facts:
  "sendCopilotMessage silentEnv t = Inr cardReply"
  "interruptSpeech silentEnv = None \<or> interruptSpeech silentEnv = Some (Inr ())"
  "acquireConnectionToken silentEnv = Some (\<lambda>uri. Inr (Some (ascii ''tok'')))"
  "exchangeConnectionToken silentEnv = Some (\<lambda>params. Inr exchangedReply)"
  by (simp_all add: silentEnv_def plainEnv_def)

lemma exchangedReply_facts:
  "trim (botReply exchangedReply) = ascii ''Here are your files''"
  by (simp add: exchangedReply_def eval_defs)

theorem silent_exchange_hides_card_witness:
  "trim (ascii ''hello'') \<noteq> [] \<and> \<not> capturedIsProcessing (closureOf freshWorld)
   \<and> sendCopilotMessage silentEnv (trim (ascii ''hello'')) = Inr cardReply
   \<and> respSigninCard cardReply = Some consentCard
   \<and> tokenExchangeResourceUri consentCard = Some (ascii ''api://files/.default'')
   \<and> list_all (\<lambda>ev. \<not> isShowCard ev) (turnEvents silentEnv (closureOf freshWorld) (ascii ''hello'') freshWorld)
   \<and> signinCard (snd (runTurn silentEnv (closureOf freshWorld) (ascii ''hello'') freshWorld)) = None
   \<and> history (snd (runTurn silentEnv (closureOf freshWorld) (ascii ''hello'') freshWorld))
       = [message silentEnv User (ascii ''hello''),
          message silentEnv Assistant (ascii ''Here are your files'')]"
proof -
  have reply: "trim (botReply exchangedReply) \<noteq> []"
    by (simp add: exchangedReply_facts)
  from silent_exchange_hides_card [OF hello_started [THEN conjunct1]
      hello_started [THEN conjunct2] silentEnv_facts(1,2) cardReply_facts(1)
      consentCard_facts(1) ascii_nonempty consentCard_facts(2) ascii_nonempty
      consentCard_facts(3) ascii_nonempty silentEnv_facts(3) refl ascii_nonempty
      silentEnv_facts(4) refl reply]
    hello_started
  show ?thesis
    by (simp add: silentEnv_facts cardReply_facts consentCard_facts exchangedReply_facts
        trim_hello freshWorld_fields)
qed

text \<open>The run in which the exchange answers with whitespace only.\<close>

theorem blank_exchange_reply_counterexample:
  "trim (ascii ''hello'') \<noteq> [] \<and> \<not> capturedIsProcessing (closureOf freshWorld)
   \<and> sendCopilotMessage silentBlankEnv (trim (ascii ''hello'')) = Inr cardReply
   \<and> respSigninCard cardReply = Some consentCard
   \<and> tokenExchangeResourceUri consentCard = Some (ascii ''api://files/.default'')
   \<and> acquireConnectionToken silentBlankEnv = Some (\<lambda>uri. Inr (Some (ascii ''tok'')))
   \<and> exchangeConnectionToken silentBlankEnv = Some (\<lambda>params. Inr blankReply)
   \<and> botReply blankReply \<noteq> []
   \<and> fst (runTurn silentBlankEnv (closureOf freshWorld) (ascii ''hello'') freshWorld) = Resolved
   \<and> signinCard (snd (runTurn silentBlankEnv (closureOf freshWorld) (ascii ''hello'') freshWorld)) = None
   \<and> history (snd (runTurn silentBlankEnv (closureOf freshWorld) (ascii ''hello'') freshWorld))
       = [message silentBlankEnv User (ascii ''hello'')]"
proof -
  have env: "sendCopilotMessage silentBlankEnv (trim (ascii ''hello'')) = Inr cardReply"
    "interruptSpeech silentBlankEnv = None \<or> interruptSpeech silentBlankEnv = Some (Inr ())"
    "acquireConnectionToken silentBlankEnv = Some (\<lambda>uri. Inr (Some (ascii ''tok'')))"
    "exchangeConnectionToken silentBlankEnv = Some (\<lambda>params. Inr blankReply)"
    by (simp_all add: silentBlankEnv_def silentEnv_def plainEnv_def)
  have blank: "botReply blankReply \<noteq> []" "trim (botReply blankReply) = []"
    by (simp_all add: blankReply_def eval_defs)
  have "fst (runTurn silentBlankEnv (closureOf freshWorld) (ascii ''hello'') freshWorld) = Resolved
   \<and> signinCard (snd (runTurn silentBlankEnv (closureOf freshWorld) (ascii ''hello'') freshWorld)) = None
   \<and> history (snd (runTurn silentBlankEnv (closureOf freshWorld) (ascii ''hello'') freshWorld))
       = [message silentBlankEnv User (ascii ''hello'')]"
    by (simp add: runTurn_joined [OF hello_started [THEN conjunct1]
          hello_started [THEN conjunct2] env(1,2)]
        afterFiller_silent [OF cardReply_facts(1) consentCard_facts(4)]
        trySilentExchange_succeeds [OF consentCard_facts(1) ascii_nonempty
          consentCard_facts(2) ascii_nonempty consentCard_facts(3) ascii_nonempty
          env(3) refl ascii_nonempty env(4) refl]
        blank setter_defs turnStart_def Let_def trim_hello freshWorld_fields)
  with hello_started env blank cardReply_facts consentCard_facts show ?thesis by simp
qed

theorem silent_acquisition_first_witness:
  "trim (ascii ''hello'') \<noteq> [] \<and> \<not> capturedIsProcessing (closureOf freshWorld)
   \<and> sendCopilotMessage silentEnv (trim (ascii ''hello'')) = Inr cardReply
   \<and> respSigninCard cardReply = Some consentCard
   \<and> tokenExchangeResourceUri consentCard = Some (ascii ''api://files/.default'')
   \<and> interruptSpeech silentEnv = Some (Inr ())
   \<and> CallAcquireConnectionToken (ascii ''api://files/.default'')
        \<in> set (turnEvents silentEnv (closureOf freshWorld) (ascii ''hello'') freshWorld)
   \<and> list_all (\<lambda>ev. \<not> isShowCard ev)
        (takeWhile (\<lambda>ev. ev \<noteq> CallAcquireConnectionToken (ascii ''api://files/.default''))
           (turnEvents silentEnv (closureOf freshWorld) (ascii ''hello'') freshWorld))
   \<and> sendCopilotMessage silentInterruptFailEnv (trim (ascii ''hello'')) = Inr cardReply
   \<and> interruptSpeech silentInterruptFailEnv
       = Some (Inl (Error (ascii ''interrupt failed'')))
   \<and> fst (runTurn silentInterruptFailEnv (closureOf freshWorld) (ascii ''hello'') freshWorld)
       = Rejected (Error (ascii ''interrupt failed''))
   \<and> CallAcquireConnectionToken (ascii ''api://files/.default'')
        \<notin> set (turnEvents silentInterruptFailEnv (closureOf freshWorld) (ascii ''hello'')
                  freshWorld)
   \<and> signinCard (snd (runTurn silentInterruptFailEnv (closureOf freshWorld) (ascii ''hello'')
                        freshWorld)) = None"
proof -
  have adapters: "acquireConnectionToken silentEnv \<noteq> None"
    "exchangeConnectionToken silentEnv \<noteq> None"
    by (simp_all add: silentEnv_facts)
  have interrupt: "interruptSpeech silentEnv = Some (Inr ())"
    by (simp add: silentEnv_def plainEnv_def)
  have failing: "sendCopilotMessage silentInterruptFailEnv (trim (ascii ''hello'')) = Inr cardReply"
    "interruptSpeech silentInterruptFailEnv = Some (Inl (Error (ascii ''interrupt failed'')))"
    "acquireConnectionToken silentInterruptFailEnv \<noteq> None"
    "exchangeConnectionToken silentInterruptFailEnv \<noteq> None"
    by (simp_all add: silentInterruptFailEnv_def silentEnv_def plainEnv_def)
  from silent_acquisition_first [OF hello_started [THEN conjunct1]
      hello_started [THEN conjunct2] silentEnv_facts(1) cardReply_facts(1)
      consentCard_facts(1) ascii_nonempty consentCard_facts(5,6) adapters,
      of freshWorld]
    silent_acquisition_first [OF hello_started [THEN conjunct1]
      hello_started [THEN conjunct2] failing(1) cardReply_facts(1)
      consentCard_facts(1) ascii_nonempty consentCard_facts(5,6) failing(3,4),
      of freshWorld]
    hello_started
  show ?thesis
    by (simp add: interrupt failing(1,2) silentEnv_facts(1) cardReply_facts consentCard_facts)
qed

text \<open>The run in which the consent adapters are not supplied.\<close>

theorem signed_out_counterexample:
  "trim (ascii ''hello'') \<noteq> [] \<and> \<not> capturedIsProcessing (closureOf freshWorld)
   \<and> sendCopilotMessage signedOutEnv (trim (ascii ''hello'')) = Inr cardReply
   \<and> respSigninCard cardReply = Some consentCard
   \<and> tokenExchangeResourceUri consentCard = Some (ascii ''api://files/.default'')
   \<and> fst (runTurn signedOutEnv (closureOf freshWorld) (ascii ''hello'') freshWorld) = Resolved
   \<and> signinCard (snd (runTurn signedOutEnv (closureOf freshWorld) (ascii ''hello'') freshWorld)) = Some consentCard
   \<and> (\<forall>uri. CallAcquireConnectionToken uri
          \<notin> set (turnEvents signedOutEnv (closureOf freshWorld) (ascii ''hello'') freshWorld))"
proof -
  have env: "sendCopilotMessage signedOutEnv (trim (ascii ''hello'')) = Inr cardReply"
    "interruptSpeech signedOutEnv = None \<or> interruptSpeech signedOutEnv = Some (Inr ())"
    "acquireConnectionToken signedOutEnv = None"
    by (simp_all add: signedOutEnv_def plainEnv_def)
  note started = hello_started [THEN conjunct1] hello_started [THEN conjunct2]
  have silent: "trySilentExchange signedOutEnv consentCard v = (Inr None, v)" for v
    by (simp add: trySilentExchange_def env(3) split: option.splits)
  have after: "afterFiller signedOutEnv cardReply v =
      (Inr (), setStatus Listening
         (setHistoryAppend (message signedOutEnv Assistant (ascii ''Sign in to continue''))
            (setSigninCard (Some consentCard) (setStatus Thinking v))))" for v
    by (simp add: afterFiller_silent [OF cardReply_facts(1) consentCard_facts(4)] silent
        showReply_def cardReply_facts(1,3) consentCard_facts Let_def)
  have run: "fst (runTurn signedOutEnv (closureOf freshWorld) (ascii ''hello'') freshWorld) = Resolved
   \<and> signinCard (snd (runTurn signedOutEnv (closureOf freshWorld) (ascii ''hello'') freshWorld)) = Some consentCard"
    by (simp add: runTurn_joined [OF started env(1,2)] after setter_defs)
  have "turnEvents signedOutEnv (closureOf freshWorld) (ascii ''hello'') freshWorld =
     turnStartEvents signedOutEnv (trim (ascii ''hello''))
     @ preJoinEvents signedOutEnv (trim (ascii ''hello''))
     @ [FillerSettled, SetStatus Thinking, SetSigninCard (Some consentCard),
        SetHistoryAppend (message signedOutEnv Assistant (ascii ''Sign in to continue'')),
        SetStatus Listening, SetIsProcessing False]"
    unfolding turnEvents_def eventsSince_def
    by (simp add: runTurn_joined [OF started env(1,2)] after setter_defs trace_turnStart)
  then have "\<forall>uri. CallAcquireConnectionToken uri
          \<notin> set (turnEvents signedOutEnv (closureOf freshWorld) (ascii ''hello'') freshWorld)"
    by (simp add: turnStartEvents_not preJoinEvents_not)
  with run hello_started env cardReply_facts consentCard_facts show ?thesis by simp
qed

section \<open>Completing a consent card\<close>

lemma completeTokenExchange_refused:
  assumes "\<not> exchangeReady env cl"
  shows "completeTokenExchange env cl connectionToken w =
     (Rejected (Error (ascii ''No pending signin card with token exchange metadata'')), w)"
  using assms
  by (auto simp add: completeTokenExchange_def exchangeReady_def truthy_def
      split: option.splits)

lemma submitAllowAction_refused:
  assumes "\<not> submitReady env cl"
  shows "submitAllowAction env cl w =
     (Rejected (Error (ascii ''No pending signin card with submit action data'')), w)"
  using assms
  by (auto simp add: submitAllowAction_def submitReady_def split: option.splits)

text \<open>What both completions write before they call the backend (lines 252 to 254).\<close>

lemma completeTokenExchange_ready:
  assumes "capturedSigninCard cl = Some c"
    and "tokenExchangeResourceId c = Some rid" and "rid \<noteq> []"
    and "connectionName c = Some cname" and "cname \<noteq> []"
    and "exchangeConnectionToken env = Some exchange"
  shows "completeTokenExchange env cl connectionToken w =
     settleCard
       (case exchange \<lparr>paramConnectionToken = connectionToken, paramConnectionName = cname,
                       paramTokenExchangeResourceId = rid\<rparr> of
          Inl e \<Rightarrow>
            (Inl e,
             emits [SetError None, SetIsExchanging True, SetStatus Thinking,
                    CallExchangeConnectionToken
                      \<lparr>paramConnectionToken = connectionToken, paramConnectionName = cname,
                       paramTokenExchangeResourceId = rid\<rparr>]
               (w\<lparr>error := None, isExchanging := True, status := Thinking\<rparr>))
        | Inr result \<Rightarrow>
            afterCardResult env result
              (emits [SetError None, SetIsExchanging True, SetStatus Thinking,
                      CallExchangeConnectionToken
                        \<lparr>paramConnectionToken = connectionToken, paramConnectionName = cname,
                         paramTokenExchangeResourceId = rid\<rparr>,
                      SetSigninCard None]
                 (w\<lparr>error := None, isExchanging := True, status := Thinking,
                     signinCard := None\<rparr>)))"
  using assms
  by (simp add: completeTokenExchange_def Let_def world_defs cong: sum.case_cong)

lemma submitAllowAction_ready:
  assumes "capturedSigninCard cl = Some c" and "submitAction c = Some action"
    and "submitCardAction env = Some submit"
  shows "submitAllowAction env cl w =
     settleCard
       (case submit action of
          Inl e \<Rightarrow>
            (Inl e,
             emits [SetError None, SetIsExchanging True, SetStatus Thinking,
                    CallSubmitCardAction action]
               (w\<lparr>error := None, isExchanging := True, status := Thinking\<rparr>))
        | Inr result \<Rightarrow>
            afterCardResult env result
              (emits [SetError None, SetIsExchanging True, SetStatus Thinking,
                      CallSubmitCardAction action, SetSigninCard None]
                 (w\<lparr>error := None, isExchanging := True, status := Thinking,
                     signinCard := None\<rparr>)))"
  using assms
  by (simp add: submitAllowAction_def Let_def world_defs cong: sum.case_cong)

lemma afterCardResult_rejects:
  assumes "fst (afterCardResult env r w) = Inl e"
  shows "trim (botReply r) \<noteq> []"
    and "afterCardResult env r w
         = processBotReply env (trim (botReply r)) (optTrim (speechText r)) w"
  using assms by (auto simp add: afterCardResult_def Let_def split: if_splits option.splits)

lemma afterCardResult_resolves:
  "fst (afterCardResult env r w) = Inr u \<Longrightarrow> status (snd (afterCardResult env r w)) = Listening"
  by (auto simp add: afterCardResult_def Let_def processBotReply_resolves setter_defs
      split: if_splits option.splits)

lemma afterCardResult_history:
  "\<exists>ms. history (snd (afterCardResult env r w)) = history w @ ms"
  by (simp add: afterCardResult_def Let_def processBotReply_history setter_defs
      split: option.splits)

text \<open>How a completion that passed its guard settles, whatever the backend answers.\<close>

lemma settleCard_result:
  "fst (settleCard rw) = Resolved"
  "fst rw = Inl e \<Longrightarrow> status (snd (settleCard rw)) = ErrorStatus"
  "fst rw = Inl e \<Longrightarrow> error (snd (settleCard rw)) = Some (errMessage e)"
  "fst rw = Inl e \<Longrightarrow> signinCard (snd (settleCard rw)) = signinCard (snd rw)"
  "fst rw = Inl e \<Longrightarrow> history (snd (settleCard rw)) = history (snd rw)"
  "fst rw = Inr u \<Longrightarrow> cells (snd (settleCard rw)) = cells ((snd rw)\<lparr>isExchanging := False\<rparr>)"
  "history (snd (settleCard rw)) = history (snd rw)"
  by (cases rw; cases "fst rw"; simp add: settleCard_def setter_defs cells_def)+

text \<open>
  C7 (as amended). For every pending SigninCard (the card that the callback carries and
  its guard reads) carrying \<open>tokenExchangeResourceId\<close> and \<open>connectionName\<close> (and with the
  exchange adapter supplied), if \<open>completeTokenExchange\<close> fails after its precondition check, then on return the status is \<open>error\<close> and the error
  message is recorded. When the failure is the rejection of the exchange call itself, the
  pending SigninCard and the history are untouched. When the exchange call succeeded and
  the failure is that of the synthesis or the playback of the reply, the pending SigninCard
  has already been cleared and the reply is already in the history.
\<close>

theorem exchange_failure_recorded:
  assumes "capturedSigninCard cl = Some c"
    and "tokenExchangeResourceId c = Some rid" and "rid \<noteq> []"
    and "connectionName c = Some cname" and "cname \<noteq> []"
    and "exchangeConnectionToken env = Some exchange"
  shows
    "(\<forall>e. exchange \<lparr>paramConnectionToken = connectionToken, paramConnectionName = cname,
                    paramTokenExchangeResourceId = rid\<rparr> = Inl e \<longrightarrow>
          fst (completeTokenExchange env cl connectionToken w) = Resolved
        \<and> status (snd (completeTokenExchange env cl connectionToken w)) = ErrorStatus
        \<and> error (snd (completeTokenExchange env cl connectionToken w)) = Some (errMessage e)
        \<and> signinCard (snd (completeTokenExchange env cl connectionToken w)) = signinCard w
        \<and> history (snd (completeTokenExchange env cl connectionToken w)) = history w)
   \<and> (\<forall>result e audio.
          exchange \<lparr>paramConnectionToken = connectionToken, paramConnectionName = cname,
                    paramTokenExchangeResourceId = rid\<rparr> = Inr result
        \<and> trim (botReply result) \<noteq> []
        \<and> (ttsResult env Reply (orElse (optTrim (speechText result)) (trim (botReply result)))
              = Inl e
           \<or> ttsResult env Reply (orElse (optTrim (speechText result)) (trim (botReply result)))
              = Inr audio \<and> speakAudio env Reply audio = Inl e) \<longrightarrow>
          fst (completeTokenExchange env cl connectionToken w) = Resolved
        \<and> status (snd (completeTokenExchange env cl connectionToken w)) = ErrorStatus
        \<and> error (snd (completeTokenExchange env cl connectionToken w)) = Some (errMessage e)
        \<and> signinCard (snd (completeTokenExchange env cl connectionToken w)) = None
        \<and> history (snd (completeTokenExchange env cl connectionToken w))
            = history w @ [message env Assistant (trim (botReply result))])"
proof -
  let ?p = "\<lparr>paramConnectionToken = connectionToken, paramConnectionName = cname,
            paramTokenExchangeResourceId = rid\<rparr>"
  let ?r = "completeTokenExchange env cl connectionToken w"
  have rejected: "fst ?r = Resolved \<and> status (snd ?r) = ErrorStatus
        \<and> error (snd ?r) = Some (errMessage e) \<and> signinCard (snd ?r) = signinCard w
        \<and> history (snd ?r) = history w"
    if "exchange ?p = Inl e" for e
    using that assms(1)
    by (simp add: completeTokenExchange_ready [OF assms] settleCard_def setter_defs)
  have speech: "fst ?r = Resolved \<and> status (snd ?r) = ErrorStatus
        \<and> error (snd ?r) = Some (errMessage e) \<and> signinCard (snd ?r) = None
        \<and> history (snd ?r) = history w @ [message env Assistant (trim (botReply result))]"
    if "exchange ?p = Inr result \<and> trim (botReply result) \<noteq> []
        \<and> (ttsResult env Reply (orElse (optTrim (speechText result)) (trim (botReply result)))
              = Inl e
           \<or> ttsResult env Reply (orElse (optTrim (speechText result)) (trim (botReply result)))
              = Inr audio \<and> speakAudio env Reply audio = Inl e)"
    for result e audio
    using that
    by (auto simp add: completeTokenExchange_ready [OF assms] afterCardResult_def
        processBotReply_def synthesizeSpeech_def settleCard_def Let_def setter_defs)
  from rejected speech show ?thesis by blast
qed

lemma pendingWorld_fields:
  "signinCard pendingWorld = Some consentCard" "history pendingWorld = []"
  "status pendingWorld = Listening" "error pendingWorld = None" "trace pendingWorld = []"
  "capturedSigninCard (closureOf pendingWorld) = Some consentCard"
  by (simp_all add: pendingWorld_def freshWorld_def)

theorem exchange_failure_recorded_witness:
  "signinCard pendingWorld = Some consentCard
   \<and> tokenExchangeResourceId consentCard = Some (ascii ''res-1'')
   \<and> connectionName consentCard = Some (ascii ''SharePoint'')
   \<and> exchangeConnectionToken exchangeFailEnv
        = Some (\<lambda>params. Inl (Error (ascii ''exchange failed'')))
   \<and> fst (completeTokenExchange exchangeFailEnv (closureOf pendingWorld) (ascii ''tok'') pendingWorld) = Resolved
   \<and> status (snd (completeTokenExchange exchangeFailEnv (closureOf pendingWorld) (ascii ''tok'') pendingWorld))
       = ErrorStatus
   \<and> error (snd (completeTokenExchange exchangeFailEnv (closureOf pendingWorld) (ascii ''tok'') pendingWorld))
       = Some (ascii ''exchange failed'')
   \<and> signinCard (snd (completeTokenExchange exchangeFailEnv (closureOf pendingWorld) (ascii ''tok'') pendingWorld))
       = Some consentCard
   \<and> history (snd (completeTokenExchange exchangeFailEnv (closureOf pendingWorld) (ascii ''tok'') pendingWorld)) = []"
proof -
  have adapter: "exchangeConnectionToken exchangeFailEnv
        = Some (\<lambda>params. Inl (Error (ascii ''exchange failed'')))"
    by (simp add: exchangeFailEnv_def silentEnv_def plainEnv_def)
  from exchange_failure_recorded [OF pendingWorld_fields(6) consentCard_facts(2) ascii_nonempty
      consentCard_facts(3) ascii_nonempty adapter, of "ascii ''tok''"]
  show ?thesis
    by (simp add: adapter pendingWorld_fields consentCard_facts)
qed

text \<open>The exchange succeeds, the speech synthesis of the reply fails.\<close>

theorem reply_speech_failure_counterexample:
  "signinCard pendingWorld = Some consentCard
   \<and> tokenExchangeResourceId consentCard = Some (ascii ''res-1'')
   \<and> connectionName consentCard = Some (ascii ''SharePoint'')
   \<and> exchangeConnectionToken ttsDownEnv = Some (\<lambda>params. Inr exchangedReply)
   \<and> (\<forall>t. ttsResult ttsDownEnv Reply t = Inl (Error (ascii ''tts down'')))
   \<and> fst (completeTokenExchange ttsDownEnv (closureOf pendingWorld) (ascii ''tok'') pendingWorld) = Resolved
   \<and> status (snd (completeTokenExchange ttsDownEnv (closureOf pendingWorld) (ascii ''tok'') pendingWorld)) = ErrorStatus
   \<and> error (snd (completeTokenExchange ttsDownEnv (closureOf pendingWorld) (ascii ''tok'') pendingWorld))
       = Some (ascii ''tts down'')
   \<and> signinCard (snd (completeTokenExchange ttsDownEnv (closureOf pendingWorld) (ascii ''tok'') pendingWorld)) = None"
proof -
  have adapter: "exchangeConnectionToken ttsDownEnv = Some (\<lambda>params. Inr exchangedReply)"
    and tts: "\<forall>t. ttsResult ttsDownEnv Reply t = Inl (Error (ascii ''tts down''))"
    by (simp_all add: ttsDownEnv_def silentEnv_def plainEnv_def ttsResult_def)
  have reply: "trim (botReply exchangedReply) \<noteq> []"
    by (simp add: exchangedReply_facts)
  have "fst (completeTokenExchange ttsDownEnv (closureOf pendingWorld) (ascii ''tok'') pendingWorld) = Resolved
   \<and> status (snd (completeTokenExchange ttsDownEnv (closureOf pendingWorld) (ascii ''tok'') pendingWorld)) = ErrorStatus
   \<and> error (snd (completeTokenExchange ttsDownEnv (closureOf pendingWorld) (ascii ''tok'') pendingWorld))
       = Some (ascii ''tts down'')
   \<and> signinCard (snd (completeTokenExchange ttsDownEnv (closureOf pendingWorld) (ascii ''tok'') pendingWorld)) = None"
    using reply tts
    by (simp add: completeTokenExchange_ready [OF pendingWorld_fields(6) consentCard_facts(2)
          ascii_nonempty consentCard_facts(3) ascii_nonempty adapter]
        afterCardResult_def processBotReply_def synthesizeSpeech_def settleCard_def Let_def
        setter_defs)
  with adapter tts pendingWorld_fields consentCard_facts show ?thesis by simp
qed

section \<open>Precondition violations and runtime failures\<close>

text \<open>A completion that passed its guard: every rejected request is recorded, never rethrown.\<close>

lemma card_completion_records:
  fixes call :: "js_error + copilot_response" and pre request v v' env
  defines "rw \<equiv> (case call of
                 Inl e \<Rightarrow> (Inl e, emits (pre @ [request]) v)
               | Inr result \<Rightarrow>
                   afterCardResult env result (emits (pre @ [request, SetSigninCard None]) v'))"
  assumes pre: "\<forall>ev \<in> set pre. nonFillerRejection env ev = None"
    and request: "nonFillerRejection env request = (case call of Inl e \<Rightarrow> Some e | Inr r \<Rightarrow> None)"
    and v: "trace v = trace w" "trace v' = trace w"
  shows "fst (settleCard rw) = Resolved
     \<and> (\<forall>ev \<in> set (eventsSince w (snd (settleCard rw))). \<forall>e.
           nonFillerRejection env ev = Some e \<longrightarrow>
             status (snd (settleCard rw)) = ErrorStatus
             \<and> error (snd (settleCard rw)) = Some (errMessage e))"
proof (cases call)
  case (Inl e)
  with pre request v show ?thesis
    by (auto simp add: rw_def settleCard_def eventsSince_def setter_defs nonFillerRejection_def)
next
  case (Inr result)
  let ?v = "emits (pre @ [request, SetSigninCard None]) v'"
  have settled: "\<forall>ev \<in> set (pre @ [request, SetSigninCard None]). nonFillerRejection env ev = None"
    using pre request Inr by (simp add: nonFillerRejection_def)
  show ?thesis
  proof (cases "trim (botReply result) = []")
    case True
    with Inr settled v show ?thesis
      by (auto simp add: rw_def settleCard_def eventsSince_def setter_defs afterCardResult_def
          Let_def nonFillerRejection_def split: option.splits)
  next
    case False
    let ?x = "orElse (optTrim (speechText result)) (trim (botReply result))"
    show ?thesis
    proof (cases "ttsResult env Reply ?x")
      case (Inl e)
      with Inr False settled v show ?thesis
        by (auto simp add: rw_def settleCard_def eventsSince_def setter_defs afterCardResult_def
            processBotReply_def synthesizeSpeech_def Let_def nonFillerRejection_def)
    next
      case audio: (Inr audio)
      with Inr False settled v show ?thesis
        by (cases "speakAudio env Reply audio")
           (auto simp add: rw_def settleCard_def eventsSince_def setter_defs afterCardResult_def
              processBotReply_def synthesizeSpeech_def Let_def nonFillerRejection_def)
    qed
  qed
qed

text \<open>
  The guard and the \<open>catch\<close> block of both completions, in terms of how the returned
  promise settles.
\<close>

lemma card_completion_guard:
  "(\<not> exchangeReady env cl \<longrightarrow>
      completeTokenExchange env cl connectionToken w =
        (Rejected (Error (ascii ''No pending signin card with token exchange metadata'')), w))
   \<and> (\<not> submitReady env cl \<longrightarrow>
      submitAllowAction env cl w =
        (Rejected (Error (ascii ''No pending signin card with submit action data'')), w))
   \<and> (exchangeReady env cl \<longrightarrow>
        fst (completeTokenExchange env cl connectionToken w) = Resolved
        \<and> (\<forall>ev \<in> set (eventsSince w (snd (completeTokenExchange env cl connectionToken w))). \<forall>e.
              nonFillerRejection env ev = Some e \<longrightarrow>
                status (snd (completeTokenExchange env cl connectionToken w)) = ErrorStatus
                \<and> error (snd (completeTokenExchange env cl connectionToken w))
                    = Some (errMessage e)))
   \<and> (submitReady env cl \<longrightarrow>
        fst (submitAllowAction env cl w) = Resolved
        \<and> (\<forall>ev \<in> set (eventsSince w (snd (submitAllowAction env cl w))). \<forall>e.
              nonFillerRejection env ev = Some e \<longrightarrow>
                status (snd (submitAllowAction env cl w)) = ErrorStatus
                \<and> error (snd (submitAllowAction env cl w)) = Some (errMessage e)))"
proof -
  have refused: "completeTokenExchange env cl connectionToken w =
        (Rejected (Error (ascii ''No pending signin card with token exchange metadata'')), w)"
    if "\<not> exchangeReady env cl"
    using that by (rule completeTokenExchange_refused)
  have refused2: "submitAllowAction env cl w =
        (Rejected (Error (ascii ''No pending signin card with submit action data'')), w)"
    if "\<not> submitReady env cl"
    using that by (rule submitAllowAction_refused)
  have recorded: "fst (completeTokenExchange env cl connectionToken w) = Resolved
        \<and> (\<forall>ev \<in> set (eventsSince w (snd (completeTokenExchange env cl connectionToken w))). \<forall>e.
              nonFillerRejection env ev = Some e \<longrightarrow>
                status (snd (completeTokenExchange env cl connectionToken w)) = ErrorStatus
                \<and> error (snd (completeTokenExchange env cl connectionToken w))
                    = Some (errMessage e))"
    if "exchangeReady env cl"
  proof -
    from that obtain c rid cname exchange where ready: "capturedSigninCard cl = Some c"
      "tokenExchangeResourceId c = Some rid" "rid \<noteq> []"
      "connectionName c = Some cname" "cname \<noteq> []"
      "exchangeConnectionToken env = Some exchange"
      by (auto simp add: exchangeReady_def truthy_def split: option.splits)
    let ?p = "\<lparr>paramConnectionToken = connectionToken, paramConnectionName = cname,
              paramTokenExchangeResourceId = rid\<rparr>"
    from card_completion_records
      [where pre = "[SetError None, SetIsExchanging True, SetStatus Thinking]"
         and request = "CallExchangeConnectionToken ?p" and call = "exchange ?p" and env = env
         and w = w and v = "w\<lparr>error := None, isExchanging := True, status := Thinking\<rparr>"
         and v' = "w\<lparr>error := None, isExchanging := True, status := Thinking,
                      signinCard := None\<rparr>"]
    show ?thesis
      by (simp add: completeTokenExchange_ready [OF ready] nonFillerRejection_def ready
          split: sum.splits)
  qed
  have recorded2: "fst (submitAllowAction env cl w) = Resolved
        \<and> (\<forall>ev \<in> set (eventsSince w (snd (submitAllowAction env cl w))). \<forall>e.
              nonFillerRejection env ev = Some e \<longrightarrow>
                status (snd (submitAllowAction env cl w)) = ErrorStatus
                \<and> error (snd (submitAllowAction env cl w)) = Some (errMessage e))"
    if "submitReady env cl"
  proof -
    from that obtain c action submit where ready: "capturedSigninCard cl = Some c"
      "submitAction c = Some action" "submitCardAction env = Some submit"
      by (auto simp add: submitReady_def split: option.splits)
    from card_completion_records
      [where pre = "[SetError None, SetIsExchanging True, SetStatus Thinking]"
         and request = "CallSubmitCardAction action" and call = "submit action" and env = env
         and w = w and v = "w\<lparr>error := None, isExchanging := True, status := Thinking\<rparr>"
         and v' = "w\<lparr>error := None, isExchanging := True, status := Thinking,
                      signinCard := None\<rparr>"]
    show ?thesis
      by (simp add: submitAllowAction_ready [OF ready] nonFillerRejection_def ready
          split: sum.splits)
  qed
  from refused refused2 recorded recorded2 show ?thesis by blast
qed


text \<open>
  C8 (as amended). \<open>completeTokenExchange\<close>, called through a callback that holds no pending
  SigninCard, or one that lacks \<open>tokenExchangeResourceId\<close> or \<open>connectionName\<close>, or with no
  exchange adapter, and \<open>submitAllowAction\<close>, called through a callback that holds no
  pending card carrying a \<open>submitAction\<close> payload (or with no submit adapter), signal the
  violation with an error of their own: the call returns a promise (both operations are
  async, so nothing is thrown to the caller synchronously) and that promise rejects with
  the operation's error, while everything is left as it was: no state write, no backend
  call. Once the guard has passed, the returned promise always resolves: a request that
  rejects while the operation runs (the exchange or the submission, the synthesis or the
  playback of the reply) is not rethrown but recorded, status \<open>error\<close> and the message of
  the error.
\<close>

theorem precondition_violation_distinct:
  "(\<not> exchangeReady env cl \<longrightarrow>
      asyncCall (completeTokenExchange env cl connectionToken w) =
        (PromiseReturned
           (Rejected (Error (ascii ''No pending signin card with token exchange metadata''))),
         w))
   \<and> (\<not> submitReady env cl \<longrightarrow>
      asyncCall (submitAllowAction env cl w) =
        (PromiseReturned
           (Rejected (Error (ascii ''No pending signin card with submit action data''))),
         w))
   \<and> (exchangeReady env cl \<longrightarrow>
        fst (asyncCall (completeTokenExchange env cl connectionToken w))
          = PromiseReturned Resolved
        \<and> (\<forall>ev \<in> set (eventsSince w
                          (snd (asyncCall (completeTokenExchange env cl connectionToken w)))).
            \<forall>e. nonFillerRejection env ev = Some e \<longrightarrow>
                status (snd (asyncCall (completeTokenExchange env cl connectionToken w)))
                  = ErrorStatus
                \<and> error (snd (asyncCall (completeTokenExchange env cl connectionToken w)))
                    = Some (errMessage e)))
   \<and> (submitReady env cl \<longrightarrow>
        fst (asyncCall (submitAllowAction env cl w)) = PromiseReturned Resolved
        \<and> (\<forall>ev \<in> set (eventsSince w (snd (asyncCall (submitAllowAction env cl w)))).
            \<forall>e. nonFillerRejection env ev = Some e \<longrightarrow>
                status (snd (asyncCall (submitAllowAction env cl w))) = ErrorStatus
                \<and> error (snd (asyncCall (submitAllowAction env cl w)))
                    = Some (errMessage e)))"
  using card_completion_guard [of env cl connectionToken w]
  by (simp add: asyncCall_def)

lemma exchangeFailEnv_facts:
  "exchangeConnectionToken exchangeFailEnv
     = Some (\<lambda>params. Inl (Error (ascii ''exchange failed'')))"
  "submitCardAction exchangeFailEnv = Some (\<lambda>action. Inl (Error (ascii ''submit failed'')))"
  by (simp_all add: exchangeFailEnv_def silentEnv_def plainEnv_def)

theorem precondition_violation_distinct_witness:
  "\<not> exchangeReady silentEnv (closureOf freshWorld)
   \<and> \<not> submitReady silentEnv (closureOf freshWorld)
   \<and> asyncCall (completeTokenExchange silentEnv (closureOf freshWorld) (ascii ''tok'') freshWorld)
       = (PromiseReturned
            (Rejected (Error (ascii ''No pending signin card with token exchange metadata''))),
          freshWorld)
   \<and> asyncCall (submitAllowAction silentEnv (closureOf freshWorld) freshWorld)
       = (PromiseReturned
            (Rejected (Error (ascii ''No pending signin card with submit action data''))),
          freshWorld)
   \<and> exchangeReady exchangeFailEnv (closureOf pendingWorld)
   \<and> submitReady exchangeFailEnv (closureOf pendingWorld)
   \<and> fst (asyncCall (completeTokenExchange exchangeFailEnv (closureOf pendingWorld)
              (ascii ''tok'') pendingWorld)) = PromiseReturned Resolved
   \<and> status (snd (asyncCall (completeTokenExchange exchangeFailEnv (closureOf pendingWorld)
                 (ascii ''tok'') pendingWorld))) = ErrorStatus
   \<and> error (snd (asyncCall (completeTokenExchange exchangeFailEnv (closureOf pendingWorld)
                (ascii ''tok'') pendingWorld))) = Some (ascii ''exchange failed'')
   \<and> fst (asyncCall (submitAllowAction exchangeFailEnv (closureOf pendingWorld) pendingWorld))
       = PromiseReturned Resolved
   \<and> status (snd (asyncCall (submitAllowAction exchangeFailEnv (closureOf pendingWorld)
                 pendingWorld))) = ErrorStatus
   \<and> error (snd (asyncCall (submitAllowAction exchangeFailEnv (closureOf pendingWorld)
                pendingWorld))) = Some (ascii ''submit failed'')"
proof -
  have idle: "\<not> exchangeReady silentEnv (closureOf freshWorld)"
    "\<not> submitReady silentEnv (closureOf freshWorld)"
    by (simp_all add: exchangeReady_def submitReady_def freshWorld_fields)
  have action: "submitAction consentCard = Some [(ascii ''action'', ascii ''Allow'')]"
    by (simp add: consentCard_def)
  have ready: "exchangeReady exchangeFailEnv (closureOf pendingWorld)"
    "submitReady exchangeFailEnv (closureOf pendingWorld)"
    by (simp_all add: exchangeReady_def submitReady_def pendingWorld_fields
        consentCard_facts(4,5,6) exchangeFailEnv_facts action)
  have exchange:
    "status (snd (completeTokenExchange exchangeFailEnv (closureOf pendingWorld)
                    (ascii ''tok'') pendingWorld)) = ErrorStatus
   \<and> error (snd (completeTokenExchange exchangeFailEnv (closureOf pendingWorld)
                   (ascii ''tok'') pendingWorld)) = Some (ascii ''exchange failed'')"
    by (simp add: completeTokenExchange_ready [OF pendingWorld_fields(6) consentCard_facts(2)
          ascii_nonempty consentCard_facts(3) ascii_nonempty exchangeFailEnv_facts(1)]
        settleCard_def setter_defs)
  have submit:
    "status (snd (submitAllowAction exchangeFailEnv (closureOf pendingWorld) pendingWorld))
       = ErrorStatus
   \<and> error (snd (submitAllowAction exchangeFailEnv (closureOf pendingWorld) pendingWorld))
       = Some (ascii ''submit failed'')"
    by (simp add: submitAllowAction_ready [OF pendingWorld_fields(6) action
          exchangeFailEnv_facts(2)] settleCard_def setter_defs)
  from precondition_violation_distinct
      [of silentEnv "closureOf freshWorld" "ascii ''tok''" freshWorld]
    precondition_violation_distinct
      [of exchangeFailEnv "closureOf pendingWorld" "ascii ''tok''" pendingWorld]
    idle ready exchange submit
  show ?thesis by (simp add: asyncCall_def)
qed

text \<open>
  Both violations at a freshly mounted hook: the call returns a promise, which rejects. And
  a callback created while the card was pending, called after the card has been dismissed:
  no card is pending, yet the guard passes and the exchange request is sent.
\<close>

theorem synchronous_throw_counterexample:
  "signinCard freshWorld = None
   \<and> fst (asyncCall (completeTokenExchange silentEnv (closureOf freshWorld) (ascii ''tok'')
              freshWorld))
       = PromiseReturned
           (Rejected (Error (ascii ''No pending signin card with token exchange metadata'')))
   \<and> fst (asyncCall (submitAllowAction silentEnv (closureOf freshWorld) freshWorld))
       = PromiseReturned
           (Rejected (Error (ascii ''No pending signin card with submit action data'')))
   \<and> signinCard (dismissSigninCard pendingWorld) = None
   \<and> fst (asyncCall (completeTokenExchange exchangeFailEnv (closureOf pendingWorld)
              (ascii ''tok'') (dismissSigninCard pendingWorld))) = PromiseReturned Resolved
   \<and> eventsSince (dismissSigninCard pendingWorld)
        (snd (completeTokenExchange exchangeFailEnv (closureOf pendingWorld) (ascii ''tok'')
                (dismissSigninCard pendingWorld)))
       = [SetError None, SetIsExchanging True, SetStatus Thinking,
          CallExchangeConnectionToken
            \<lparr>paramConnectionToken = ascii ''tok'', paramConnectionName = ascii ''SharePoint'',
             paramTokenExchangeResourceId = ascii ''res-1''\<rparr>,
          SetStatus ErrorStatus, SetError (Some (ascii ''exchange failed'')),
          SetIsExchanging False]"
proof -
  have idle: "\<not> exchangeReady silentEnv (closureOf freshWorld)"
    "\<not> submitReady silentEnv (closureOf freshWorld)"
    by (simp_all add: exchangeReady_def submitReady_def freshWorld_fields)
  have gone: "signinCard (dismissSigninCard pendingWorld) = None"
    by (simp add: dismissSigninCard_def setter_defs)
  note run = completeTokenExchange_ready [OF pendingWorld_fields(6) consentCard_facts(2)
      ascii_nonempty consentCard_facts(3) ascii_nonempty exchangeFailEnv_facts(1),
      of "ascii ''tok''" "dismissSigninCard pendingWorld"]
  have stale: "fst (completeTokenExchange exchangeFailEnv (closureOf pendingWorld)
                 (ascii ''tok'') (dismissSigninCard pendingWorld)) = Resolved"
    by (simp add: run settleCard_def)
  have events: "eventsSince (dismissSigninCard pendingWorld)
        (snd (completeTokenExchange exchangeFailEnv (closureOf pendingWorld) (ascii ''tok'')
                (dismissSigninCard pendingWorld)))
       = [SetError None, SetIsExchanging True, SetStatus Thinking,
          CallExchangeConnectionToken
            \<lparr>paramConnectionToken = ascii ''tok'', paramConnectionName = ascii ''SharePoint'',
             paramTokenExchangeResourceId = ascii ''res-1''\<rparr>,
          SetStatus ErrorStatus, SetError (Some (ascii ''exchange failed'')),
          SetIsExchanging False]"
    by (simp add: run settleCard_def eventsSince_def world_defs)
  from gone stale events show ?thesis
    by (simp add: completeTokenExchange_refused [OF idle(1)]
        submitAllowAction_refused [OF idle(2)] asyncCall_def freshWorld_fields)
qed

section \<open>The history is append-only\<close>

lemma runTurn_history:
  "\<exists>ms. history (snd (runTurn env cl t w)) = history w @ ms"
proof (cases "trim t = [] \<or> capturedIsProcessing cl")
  case True
  then show ?thesis by (auto simp add: runTurn_def)
next
  case False
  then have started: "trim t \<noteq> []" "\<not> capturedIsProcessing cl" by simp_all
  have start: "history (turnStart env (trim t) w) = history w @ [message env User (trim t)]"
    by (simp add: turnStart_def Let_def setter_defs)
  show ?thesis
  proof (cases "sendCopilotMessage env (trim t)")
    case (Inl e)
    show ?thesis
      by (simp add: runTurn_send_rejects [OF started Inl] start setter_defs)
  next
    case (Inr r)
    show ?thesis
    proof (cases "interruptSpeech env = None \<or> interruptSpeech env = Some (Inr ())")
      case False
      then obtain e where e: "interruptSpeech env = Some (Inl e)"
        by (cases "interruptSpeech env") (metis not_None_eq old.sum.exhaust old.unit.exhaust)+
      show ?thesis
        by (simp add: runTurn_interrupt_rejects [OF started Inr e] start setter_defs)
    next
      case True
      let ?W = "emits (preJoinEvents env (trim t) @ [FillerSettled]) (turnStart env (trim t) w)"
      from afterFiller_history [of env r ?W] obtain ms where
        "history (snd (afterFiller env r ?W)) = history w @ message env User (trim t) # ms"
        by (auto simp add: start)
      then show ?thesis
        by (simp add: runTurn_joined [OF started Inr True] setter_defs split: sum.splits)
    qed
  qed
qed

lemma runTurn_appends:
  "SetHistoryEmpty \<notin> set (turnEvents env cl t w)"
proof (cases "trim t = [] \<or> capturedIsProcessing cl")
  case True
  then show ?thesis by (simp add: turnEvents_idle)
next
  case False
  then have started: "trim t \<noteq> []" "\<not> capturedIsProcessing cl" by simp_all
  have filler: "SetHistoryEmpty \<notin> set (speakFillerStart env c)"
    "SetHistoryEmpty \<notin> set (speakFillerRest env c)" for c
    using speakFiller_events [of env c] by (auto simp add: list_all_iff)
  have start: "SetHistoryEmpty \<notin> set (turnStartEvents env c)" for c
    by (simp add: turnStartEvents_def)
  show ?thesis
  proof (cases "sendCopilotMessage env (trim t)")
    case (Inl e)
    show ?thesis
      by (simp add: turnEvents_send_rejects [OF started Inl] filler start)
  next
    case (Inr r)
    show ?thesis
    proof (cases "interruptSpeech env = None \<or> interruptSpeech env = Some (Inr ())")
      case False
      then obtain e where e: "interruptSpeech env = Some (Inl e)"
        by (cases "interruptSpeech env") (metis not_None_eq old.sum.exhaust old.unit.exhaust)+
      show ?thesis
        by (simp add: turnEvents_interrupt_rejects [OF started Inr e] filler start)
    next
      case True
      let ?W = "emits (preJoinEvents env (trim t) @ [FillerSettled]) (turnStart env (trim t) w)"
      from turnEvents_joined [OF started Inr True] obtain post where
        shape: "turnEvents env cl t w = turnStartEvents env (trim t) @ preJoinEvents env (trim t)
           @ [FillerSettled] @ eventsSince ?W (snd (afterFiller env r ?W)) @ post"
        and post: "set post \<subseteq> {SetStatus ErrorStatus, SetIsProcessing False} \<union> range SetError"
        by blast
      have "SetHistoryEmpty \<notin> set (eventsSince ?W (snd (afterFiller env r ?W)))"
        by (rule tail_event_not(3)) (rule afterFiller_tail)
      moreover from post have "SetHistoryEmpty \<notin> set post" by auto
      moreover have "SetHistoryEmpty \<notin> set (preJoinEvents env (trim t))"
        by (simp add: preJoinEvents_def filler split: option.splits)
      ultimately show ?thesis by (simp add: shape start)
    qed
  qed
qed

lemma settleCard_trace:
  "\<exists>post. trace (snd (settleCard rw)) = trace (snd rw) @ post \<and> SetHistoryEmpty \<notin> set post"
  by (cases rw; cases "fst rw"; simp add: settleCard_def setter_defs)

lemma card_completion_history:
  assumes "history v = history w" and "history v' = history w"
  shows "\<exists>ms. history (snd (settleCard
            (case call of
               Inl e \<Rightarrow> (Inl e, emits pre v)
             | Inr result \<Rightarrow> afterCardResult env result (emits pre' v')))) = history w @ ms"
proof (cases call)
  case (Inl e)
  with assms show ?thesis by (simp add: settleCard_result(7))
next
  case (Inr result)
  with assms afterCardResult_history [of env result "emits pre' v'"] show ?thesis
    by (simp add: settleCard_result(7))
qed

lemma card_completion_appends:
  assumes "SetHistoryEmpty \<notin> set pre" and "SetHistoryEmpty \<notin> set pre'"
    and "trace v = trace w" and "trace v' = trace w"
  shows "SetHistoryEmpty \<notin> set (eventsSince w (snd (settleCard
            (case call of
               Inl e \<Rightarrow> (Inl e, emits pre v)
             | Inr result \<Rightarrow>
                 afterCardResult env result (emits pre' v')))))"
proof -
  let ?rw = "case call of
               Inl e \<Rightarrow> (Inl e, emits pre v)
             | Inr result \<Rightarrow> afterCardResult env result (emits pre' v')"
  have "\<exists>evs. trace (snd ?rw) = trace w @ evs \<and> SetHistoryEmpty \<notin> set evs"
  proof (cases call)
    case (Inl e)
    with assms show ?thesis by simp
  next
    case (Inr result)
    let ?V = "emits pre' v'"
    have "SetHistoryEmpty \<notin> set (eventsSince ?V (snd (afterCardResult env result ?V)))"
      by (rule tail_event_not(3)) (rule afterCardResult_tail)
    with assms Inr afterCardResult_trace [of env result ?V] show ?thesis
      by simp
  qed
  then obtain evs where evs: "trace (snd ?rw) = trace w @ evs" "SetHistoryEmpty \<notin> set evs"
    by blast
  from settleCard_trace [of ?rw] obtain post where
    "trace (snd (settleCard ?rw)) = trace (snd ?rw) @ post" "SetHistoryEmpty \<notin> set post"
    by blast
  with evs show ?thesis by (simp add: eventsSince_def)
qed

lemma completeTokenExchange_appends:
  "(\<exists>ms. history (snd (completeTokenExchange env cl connectionToken w)) = history w @ ms)
   \<and> SetHistoryEmpty \<notin> set (eventsSince w (snd (completeTokenExchange env cl connectionToken w)))"
proof (cases "exchangeReady env cl")
  case False
  then show ?thesis by (simp add: completeTokenExchange_refused)
next
  case True
  then obtain c rid cname exchange where ready: "capturedSigninCard cl = Some c"
    "tokenExchangeResourceId c = Some rid" "rid \<noteq> []"
    "connectionName c = Some cname" "cname \<noteq> []"
    "exchangeConnectionToken env = Some exchange"
    by (auto simp add: exchangeReady_def truthy_def split: option.splits)
  let ?p = "\<lparr>paramConnectionToken = connectionToken, paramConnectionName = cname,
            paramTokenExchangeResourceId = rid\<rparr>"
  from card_completion_history
    [where v = "w\<lparr>error := None, isExchanging := True, status := Thinking\<rparr>" and w = w
       and v' = "w\<lparr>error := None, isExchanging := True, status := Thinking,
                    signinCard := None\<rparr>"]
    card_completion_appends
    [where pre = "[SetError None, SetIsExchanging True, SetStatus Thinking,
                   CallExchangeConnectionToken ?p]"
       and pre' = "[SetError None, SetIsExchanging True, SetStatus Thinking,
                   CallExchangeConnectionToken ?p, SetSigninCard None]" and w = w
       and v = "w\<lparr>error := None, isExchanging := True, status := Thinking\<rparr>"
       and v' = "w\<lparr>error := None, isExchanging := True, status := Thinking,
                    signinCard := None\<rparr>" and call = "exchange ?p" and env = env]
  show ?thesis
    by (simp add: completeTokenExchange_ready [OF ready])
qed

lemma submitAllowAction_appends:
  "(\<exists>ms. history (snd (submitAllowAction env cl w)) = history w @ ms)
   \<and> SetHistoryEmpty \<notin> set (eventsSince w (snd (submitAllowAction env cl w)))"
proof (cases "submitReady env cl")
  case False
  then show ?thesis by (simp add: submitAllowAction_refused)
next
  case True
  then obtain c action submit where ready: "capturedSigninCard cl = Some c"
    "submitAction c = Some action" "submitCardAction env = Some submit"
    by (auto simp add: submitReady_def split: option.splits)
  from card_completion_history
    [where v = "w\<lparr>error := None, isExchanging := True, status := Thinking\<rparr>" and w = w
       and v' = "w\<lparr>error := None, isExchanging := True, status := Thinking,
                    signinCard := None\<rparr>"]
    card_completion_appends
    [where pre = "[SetError None, SetIsExchanging True, SetStatus Thinking,
                   CallSubmitCardAction action]"
       and pre' = "[SetError None, SetIsExchanging True, SetStatus Thinking,
                   CallSubmitCardAction action, SetSigninCard None]" and w = w
       and v = "w\<lparr>error := None, isExchanging := True, status := Thinking\<rparr>"
       and v' = "w\<lparr>error := None, isExchanging := True, status := Thinking,
                    signinCard := None\<rparr>" and call = "submit action" and env = env]
  show ?thesis
    by (simp add: submitAllowAction_ready [OF ready])
qed

text \<open>
  C9. Under \<open>runTurn\<close>, \<open>processBotReply\<close>, \<open>completeTokenExchange\<close>, \<open>submitAllowAction\<close>
  and \<open>dismissSigninCard\<close> the history after the operation is the history before it followed
  by zero or more messages, and none of the operation's writes empties the history: every
  history write is an append at the end. \<open>clearHistory\<close> empties the history and clears the
  pending card, and leaves the status as it is.
\<close>

theorem history_append_only:
  "(\<exists>ms. history (snd (runTurn env cl userText w)) = history w @ ms)
   \<and> (\<exists>ms. history (snd (processBotReply env displayText speechTextArg w)) = history w @ ms)
   \<and> (\<exists>ms. history (snd (completeTokenExchange env cl connectionToken w)) = history w @ ms)
   \<and> (\<exists>ms. history (snd (submitAllowAction env cl w)) = history w @ ms)
   \<and> history (dismissSigninCard w) = history w
   \<and> SetHistoryEmpty \<notin> set (eventsSince w (snd (runTurn env cl userText w)))
   \<and> SetHistoryEmpty
       \<notin> set (eventsSince w (snd (processBotReply env displayText speechTextArg w)))
   \<and> SetHistoryEmpty \<notin> set (eventsSince w (snd (completeTokenExchange env cl connectionToken w)))
   \<and> SetHistoryEmpty \<notin> set (eventsSince w (snd (submitAllowAction env cl w)))
   \<and> SetHistoryEmpty \<notin> set (eventsSince w (dismissSigninCard w))
   \<and> history (clearHistory w) = []
   \<and> signinCard (clearHistory w) = None
   \<and> status (clearHistory w) = status w"
proof -
  have "SetHistoryEmpty \<notin> set (eventsSince w (snd (runTurn env cl userText w)))"
    using runTurn_appends [of env cl userText w] by (simp add: turnEvents_def)
  moreover have "SetHistoryEmpty
       \<notin> set (eventsSince w (snd (processBotReply env displayText speechTextArg w)))"
    by (rule tail_event_not(3)) (rule processBotReply_tail)
  moreover have "history (dismissSigninCard w) = history w
    \<and> SetHistoryEmpty \<notin> set (eventsSince w (dismissSigninCard w))"
    by (simp add: dismissSigninCard_def eventsSince_def setter_defs)
  moreover have "history (clearHistory w) = [] \<and> signinCard (clearHistory w) = None
    \<and> status (clearHistory w) = status w"
    by (simp add: clearHistory_def setter_defs)
  ultimately show ?thesis
    using runTurn_history [of env cl userText w]
      completeTokenExchange_appends [of env cl connectionToken w]
      submitAllowAction_appends [of env cl w]
    by (simp add: processBotReply_history)
qed

section \<open>The re-entrancy guard\<close>

text \<open>What the guard does: a callback that carries a set flag is a no-op.\<close>

lemma runTurn_guard_noop:
  "capturedIsProcessing cl \<Longrightarrow> runTurn env cl userText w = (Resolved, w)"
  by (simp add: runTurn_def)

lemma awaitingBackend_fields:
  "isProcessing (awaitingBackend env t w) = True"
  "history (awaitingBackend env t w) = history w @ [message env User t]"
  "signinCard (awaitingBackend env t w) = None"
  by (simp_all add: awaitingBackend_def turnStart_def Let_def setter_defs)

text \<open>Every turn that starts passes through the state \<open>awaitingBackend\<close>.\<close>

lemma awaitingBackend_events:
  "eventsSince w (awaitingBackend env c w)
     = turnStartEvents env c @ speakFillerStart env c @ [CallSendCopilotMessage c]"
  by (simp add: awaitingBackend_def eventsSince_def trace_turnStart emit_def emits_def)

lemma awaitingBackend_reached:
  assumes "trim t \<noteq> []" and "\<not> capturedIsProcessing cl"
  shows "\<exists>rest. turnEvents env cl t w
                 = eventsSince w (awaitingBackend env (trim t) w) @ rest"
proof (cases "sendCopilotMessage env (trim t)")
  case (Inl e)
  show ?thesis
    by (simp add: turnEvents_send_rejects [OF assms Inl] awaitingBackend_events)
next
  case (Inr r)
  show ?thesis
  proof (cases "interruptSpeech env = None \<or> interruptSpeech env = Some (Inr ())")
    case False
    then obtain e where e: "interruptSpeech env = Some (Inl e)"
      by (cases "interruptSpeech env") (metis not_None_eq old.sum.exhaust old.unit.exhaust)+
    show ?thesis
      by (simp add: turnEvents_interrupt_rejects [OF assms Inr e] awaitingBackend_events)
  next
    case True
    from turnEvents_joined [OF assms Inr True, where w = w] show ?thesis
      by (auto simp add: awaitingBackend_events preJoinEvents_def)
  qed
qed

lemma trim_again: "trim (ascii ''again'') = ascii ''again''"
  by (simp add: eval_defs)

text \<open>
  C1. The guard of \<open>runTurn\<close> (line 156) tests the \<open>isProcessing\<close> that its callback
  carries, not the cell. While the turn for \<open>hello\<close> is suspended at line 173, with the flag
  set in the state, a call through the callback of the current render is a no-op, as the
  guard intends. A call through the callback created before that turn started (the one a
  transcript handler registered earlier keeps calling) is not: it starts a second turn,
  which at once clears the error and the pending card, appends a second user message and
  sends a second backend query; when it completes before the first turn resumes, it has
  appended its reply and reset the flag while the first turn is still in flight.
\<close>

theorem runTurn_guard_stale_closure:
  "isProcessing (awaitingBackend plainEnv (ascii ''hello'') freshWorld)
   \<and> history (awaitingBackend plainEnv (ascii ''hello'') freshWorld)
       = [message plainEnv User (ascii ''hello'')]
   \<and> runTurn plainEnv (closureOf (awaitingBackend plainEnv (ascii ''hello'') freshWorld))
         (ascii ''again'') (awaitingBackend plainEnv (ascii ''hello'') freshWorld)
       = (Resolved, awaitingBackend plainEnv (ascii ''hello'') freshWorld)
   \<and> \<not> capturedIsProcessing (closureOf freshWorld)
   \<and> fst (runTurn plainEnv (closureOf freshWorld) (ascii ''again'')
            (awaitingBackend plainEnv (ascii ''hello'') freshWorld)) = Resolved
   \<and> history (snd (runTurn plainEnv (closureOf freshWorld) (ascii ''again'')
                     (awaitingBackend plainEnv (ascii ''hello'') freshWorld)))
       = [message plainEnv User (ascii ''hello''), message plainEnv User (ascii ''again''),
          message plainEnv Assistant (ascii ''Hi there'')]
   \<and> isProcessing (snd (runTurn plainEnv (closureOf freshWorld) (ascii ''again'')
                          (awaitingBackend plainEnv (ascii ''hello'') freshWorld))) = False
   \<and> take 5 (turnEvents plainEnv (closureOf freshWorld) (ascii ''again'')
               (awaitingBackend plainEnv (ascii ''hello'') freshWorld))
       = [SetError None, SetSigninCard None, SetIsProcessing True, SetStatus Speaking,
          SetHistoryAppend (message plainEnv User (ascii ''again''))]
   \<and> CallSendCopilotMessage (ascii ''again'')
       \<in> set (turnEvents plainEnv (closureOf freshWorld) (ascii ''again'')
                 (awaitingBackend plainEnv (ascii ''hello'') freshWorld))"
proof -
  let ?mid = "awaitingBackend plainEnv (ascii ''hello'') freshWorld"
  let ?stale = "closureOf freshWorld"
  have started: "trim (ascii ''again'') \<noteq> []" "\<not> capturedIsProcessing ?stale"
    by (simp_all add: trim_again freshWorld_fields)
  have send: "sendCopilotMessage plainEnv (trim (ascii ''again'')) = Inr plainReply"
    and interrupt: "interruptSpeech plainEnv = None \<or> interruptSpeech plainEnv = Some (Inr ())"
    and tts: "ttsResult plainEnv Reply
         (orElse (optTrim (speechText plainReply)) (trim (botReply plainReply)))
       = Inr (ascii ''UklGRg'')"
    and play: "speakAudio plainEnv Reply (ascii ''UklGRg'') = Inr ()"
    by (simp_all add: plainEnv_facts)
  have reply: "trim (botReply plainReply) \<noteq> []"
    by (simp add: plainReply_facts)
  have current: "runTurn plainEnv (closureOf ?mid) (ascii ''again'') ?mid = (Resolved, ?mid)"
    by (rule runTurn_guard_noop) (simp add: awaitingBackend_fields)
  from runTurn_plain_reply [OF started send reply plainReply_facts(2) interrupt tts play,
      of ?mid]
  have cells: "fst (runTurn plainEnv ?stale (ascii ''again'') ?mid) = Resolved"
    "history (snd (runTurn plainEnv ?stale (ascii ''again'') ?mid))
       = [message plainEnv User (ascii ''hello''), message plainEnv User (ascii ''again''),
          message plainEnv Assistant (ascii ''Hi there'')]"
    "isProcessing (snd (runTurn plainEnv ?stale (ascii ''again'') ?mid)) = False"
    by (simp_all add: observable_def cells_def awaitingBackend_fields freshWorld_fields
        trim_again plainReply_facts)
  note events = turnEvents_plain_reply [OF started send reply plainReply_facts(2) interrupt
      tts play, of ?mid]
  have first: "take 5 (turnEvents plainEnv ?stale (ascii ''again'') ?mid)
       = [SetError None, SetSigninCard None, SetIsProcessing True, SetStatus Speaking,
          SetHistoryAppend (message plainEnv User (ascii ''again''))]"
    by (simp add: events turnStartEvents_def trim_again)
  have query: "CallSendCopilotMessage (ascii ''again'')
       \<in> set (turnEvents plainEnv ?stale (ascii ''again'') ?mid)"
    by (simp add: events preJoinEvents_def trim_again)
  from current started(2) cells first query show ?thesis
    by (simp add: awaitingBackend_fields freshWorld_fields)
qed

end
